theory Spec2Isabelle
  imports Complex_Main
begin

section \<open>Python strings\<close>

text \<open>
  A Python \<open>str\<close> is modelled as a \<open>string\<close> whose characters are the code points
  below 256 (Latin-1), so \<open>length\<close> counts code points as Python's \<open>len\<close> does and the
  Norwegian letters named by the code are single characters. The character classes below
  are those of \<open>str.isspace\<close>, \<open>str.lower\<close> and the \<open>re\<close> module on that range.
\<close>

definition py_isspace :: "char \<Rightarrow> bool" where
  "py_isspace c = (let n = (of_char c :: nat) in
     (9 \<le> n \<and> n \<le> 13) \<or> (28 \<le> n \<and> n \<le> 32) \<or> n = 133 \<or> n = 160)"

definition lower_char :: "char \<Rightarrow> char" where
  "lower_char c = (let n = (of_char c :: nat) in
     if (65 \<le> n \<and> n \<le> 90) \<or> (192 \<le> n \<and> n \<le> 222 \<and> n \<noteq> 215)
     then char_of (n + 32) else c)"

definition lower :: "string \<Rightarrow> string" where
  "lower s = map lower_char s"

definition strip :: "string \<Rightarrow> string" where
  "strip s = rev (dropWhile py_isspace (rev (dropWhile py_isspace s)))"

fun split_aux :: "string \<Rightarrow> string \<Rightarrow> string list" where
  "split_aux cur [] = (if cur = [] then [] else [cur])"
| "split_aux cur (c # cs) =
     (if py_isspace c
      then (if cur = [] then split_aux [] cs else cur # split_aux [] cs)
      else split_aux (cur @ [c]) cs)"

definition split :: "string \<Rightarrow> string list" where
  \<comment> \<open>\<open>s.split()\<close>: the maximal runs of non-whitespace characters.\<close>
  "split s = split_aux [] s"

fun startswith :: "string \<Rightarrow> string \<Rightarrow> bool" where
  "startswith s [] = True"
| "startswith [] (p # ps) = False"
| "startswith (c # cs) (p # ps) = (c = p \<and> startswith cs ps)"

fun contains :: "string \<Rightarrow> string \<Rightarrow> bool" where
  \<comment> \<open>\<open>contains s sub\<close> is Python's \<open>sub in s\<close>.\<close>
  "contains [] sub = (sub = [])"
| "contains (c # cs) sub = (startswith (c # cs) sub \<or> contains cs sub)"

fun join :: "string \<Rightarrow> string list \<Rightarrow> string" where
  "join sep [] = []"
| "join sep [x] = x"
| "join sep (x # y # ys) = x @ sep @ join sep (y # ys)"

definition is_word_char :: "char \<Rightarrow> bool" where
  \<comment> \<open>the class \<open>\w\<close> of \<open>re\<close> on a \<open>str\<close> pattern: alphanumeric or underscore.\<close>
  "is_word_char c = (let n = (of_char c :: nat) in
     (48 \<le> n \<and> n \<le> 57) \<or> (65 \<le> n \<and> n \<le> 90) \<or> n = 95 \<or> (97 \<le> n \<and> n \<le> 122)
     \<or> n = 170 \<or> n = 178 \<or> n = 179 \<or> n = 181 \<or> n = 185 \<or> n = 186
     \<or> (188 \<le> n \<and> n \<le> 190) \<or> (192 \<le> n \<and> n \<le> 214)
     \<or> (216 \<le> n \<and> n \<le> 246) \<or> (248 \<le> n \<and> n \<le> 255))"

subsection \<open>The entity pattern\<close>

text \<open>
  \<^verbatim>\<open>\b[A-Z...][a-z...]+(?:\s+[A-Z...][a-z...]+)*\b\<close>, where the upper class adds the
  code points 0xC6, 0xD8, 0xC5 and the lower class 0xE6, 0xF8, 0xE5 (the three Norwegian
  letters): a run of capitalised words.
  Every repetition in the pattern is greedy and is followed by a character of another
  class, so a match attempt is one left-to-right scan. The scan remembers the end of the
  last complete word that is followed by whitespace: the matcher falls back to it when the
  last word it tried is cut short or ends inside a longer word.
\<close>

definition is_ent_upper :: "char \<Rightarrow> bool" where
  "is_ent_upper c = (let n = (of_char c :: nat) in
     (65 \<le> n \<and> n \<le> 90) \<or> n = 198 \<or> n = 216 \<or> n = 197)"

definition is_ent_lower :: "char \<Rightarrow> bool" where
  "is_ent_lower c = (let n = (of_char c :: nat) in
     (97 \<le> n \<and> n \<le> 122) \<or> n = 230 \<or> n = 248 \<or> n = 229)"

datatype ephase = NeedLower | InLower | InSpace

fun entity_scan :: "ephase \<Rightarrow> nat \<Rightarrow> nat option \<Rightarrow> string \<Rightarrow> nat option" where
  "entity_scan ph n cand [] = (if ph = InLower then Some n else cand)"
| "entity_scan ph n cand (c # cs) =
     (case ph of
        NeedLower \<Rightarrow>
          if is_ent_lower c then entity_scan InLower (n + 1) cand cs else cand
      | InLower \<Rightarrow>
          if is_ent_lower c then entity_scan InLower (n + 1) cand cs
          else if py_isspace c then entity_scan InSpace (n + 1) (Some n) cs
          else if is_word_char c then cand
          else Some n
      | InSpace \<Rightarrow>
          if py_isspace c then entity_scan InSpace (n + 1) cand cs
          else if is_ent_upper c then entity_scan NeedLower (n + 1) cand cs
          else cand)"

definition entity_match :: "string \<Rightarrow> nat option" where
  \<comment> \<open>the length of the match that starts at the head of the text, if there is one\<close>
  "entity_match s =
     (case s of [] \<Rightarrow> None
      | c # cs \<Rightarrow> if is_ent_upper c then entity_scan NeedLower 1 None cs else None)"

fun findall_entities_aux :: "bool \<Rightarrow> nat \<Rightarrow> string \<Rightarrow> string list" where
  "findall_entities_aux prev_word skip [] = []"
| "findall_entities_aux prev_word skip (c # cs) =
     (if 0 < skip then findall_entities_aux (is_word_char c) (skip - 1) cs
      else if prev_word then findall_entities_aux (is_word_char c) 0 cs
      else (case entity_match (c # cs) of
              None \<Rightarrow> findall_entities_aux (is_word_char c) 0 cs
            | Some n \<Rightarrow> take n (c # cs) # findall_entities_aux (is_word_char c) (n - 1) cs))"

definition findall_entities :: "string \<Rightarrow> string list" where
  \<comment> \<open>\<open>re.findall\<close> of the entity pattern: the non-overlapping matches, left to right\<close>
  "findall_entities s = findall_entities_aux False 0 s"


fun split_on_aux :: "char \<Rightarrow> string \<Rightarrow> string \<Rightarrow> string list" where
  "split_on_aux sep cur [] = [cur]"
| "split_on_aux sep cur (c # cs) =
     (if c = sep then cur # split_on_aux sep [] cs else split_on_aux sep (cur @ [c]) cs)"

definition split_on :: "char \<Rightarrow> string \<Rightarrow> string list" where
  \<comment> \<open>\<open>s.split(sep)\<close> for a separator of one character: empty pieces are kept.\<close>
  "split_on sep s = split_on_aux sep [] s"

section \<open>Sources and the errors of a turn\<close>

text \<open>
  \<open>MessageSource\<close> of \<^verbatim>\<open>schemas/conversation.py\<close>. A timestamp is a Python float; it is
  modelled as a real number, so the rounding of floating-point arithmetic is not part of
  the model. \<open>py_int\<close> is \<open>int()\<close> on a float: truncation towards zero.
\<close>

record MessageSource =
  video_id :: string
  video_title :: string
  timestamp :: real
  source_text :: string
  url :: string

datatype exn = Exception string

datatype http_error = HTTPException nat string

definition py_int :: "real \<Rightarrow> int" where
  "py_int x = (if 0 \<le> x then \<lfloor>x\<rfloor> else \<lceil>x\<rceil>)"

section \<open>The per-turn merge of \<open>send_message\<close>\<close>

text \<open>
  Both loops of the merge (answer-based sources first, then the sources parsed from the
  context) run the same body on the shared \<open>seen_keys\<close> and \<open>combined_sources\<close>.
\<close>

fun add_unseen ::
  "MessageSource list \<Rightarrow> (string \<times> int) set \<Rightarrow> MessageSource list
     \<Rightarrow> (string \<times> int) set \<times> MessageSource list" where
  "add_unseen [] seen_keys combined_sources = (seen_keys, combined_sources)"
| "add_unseen (source # rest) seen_keys combined_sources =
     (let key = (video_id source, py_int (timestamp source)) in
      if key \<notin> seen_keys
      then add_unseen rest (insert key seen_keys) (combined_sources @ [source])
      else add_unseen rest seen_keys combined_sources)"

definition merge_sources :: "MessageSource list \<Rightarrow> MessageSource list \<Rightarrow> MessageSource list" where
  "merge_sources answer_based_sources sources =
     (case add_unseen answer_based_sources {} [] of
        (seen_keys, combined_sources) \<Rightarrow> snd (add_unseen sources seen_keys combined_sources))"

section \<open>The relevance filter\<close>

definition greetings :: "string list" where
  "greetings = [''hi'', ''hello'', ''hej'', ''hei'', ''hey'', ''hallo'', ''hallo der'',
     ''hei der'', ''heisann'']"

definition generic_responses :: "string list" where
  "generic_responses = [''kan hjelpe'', ''hjelpe deg'', ''hjelpe deg med'', ''assist'',
     ''help you'', ''hva kan jeg hjelpe'', ''hva kan jeg hjelpe deg'',
     ''hva kan jeg hjelpe deg med'', ''hvordan kan jeg'', ''hvordan kan jeg hjelpe'',
     ''how can i help'']"

definition generic_queries :: "string list" where
  "generic_queries = [''hi'', ''hello'', ''hej'', ''hei'', ''hey'', ''hallo'', ''hola'']"

definition filter_stopwords :: "string list" where
  "filter_stopwords = [''som'', ''det'', ''er'', ''og'', ''har'', ''kan'', ''for'', ''med'',
     ''den'', ''til'', ''der'', ''sitt'', ''sin'', ''sine'', ''han'', ''hun'', ''de'', ''en'',
     ''et'', [CHR ''p'', CHR 0xE5], ''av'', ''ved'', ''om'', ''i'', ''jobb'', ''arbeid'',
     ''hva'', ''hvem'', ''hvor'', ''hvorfor'', ''hvordan'', [CHR ''n'', CHR 0xE5, CHR ''r''],
     ''du'', ''deg'', ''din'', ''ditt'', ''meg'', ''deg'', ''seg'', ''oss'', ''dere'', ''seg'',
     ''jeg'', ''vi'', ''de'']"

definition keywords_of :: "string list \<Rightarrow> string \<Rightarrow> string list" where
  \<comment> \<open>\<open>[w.lower() for w in s.split() if len(w) > 3 and w.lower() not in stopwords]\<close>\<close>
  "keywords_of stopwords s =
     map lower (filter (\<lambda>w. 3 < length w \<and> lower w \<notin> set stopwords) (split s))"

definition is_greeting_interaction :: "string \<Rightarrow> string \<Rightarrow> bool" where
  "is_greeting_interaction answer query =
     (let answer_lower = strip (lower answer);
          query_lower = strip (lower query);
          is_greeting = list_ex (\<lambda>greeting. contains answer_lower greeting) greetings;
          is_generic = list_ex (\<lambda>phrase. contains answer_lower phrase) generic_responses;
          query_words = split query;
          is_short_query = (length query_words \<le> 2);
          is_generic_query = (query_lower \<in> set generic_queries)
      in (is_greeting \<or> is_generic) \<and> (is_short_query \<or> is_generic_query))"

definition is_short_generic_answer :: "string \<Rightarrow> bool" where
  "is_short_generic_answer answer =
     (let answer_lower = strip (lower answer);
          is_generic = list_ex (\<lambda>phrase. contains answer_lower phrase) generic_responses;
          answer_words = split answer
      in length answer_words \<le> 5 \<and> is_generic)"

definition relevance_score :: "string list \<Rightarrow> string list \<Rightarrow> string \<Rightarrow> MessageSource \<Rightarrow> nat" where
  "relevance_score all_entities all_keywords query source =
     (let source_text_lower = lower (source_text source);
          entity_matches =
            length (filter (\<lambda>entity. contains source_text_lower (lower entity)) all_entities);
          keyword_matches =
            length (filter (\<lambda>keyword. contains source_text_lower keyword) all_keywords);
          query_term_matches =
            length (filter (\<lambda>word. 3 < length word \<and> contains source_text_lower (lower word))
                      (split query))
      in (if 0 < entity_matches then entity_matches * 3 else 0)
         + (if 2 \<le> keyword_matches then keyword_matches else 0)
         + (if 3 < length (split query) \<and> 2 \<le> query_term_matches then 2 else 0))"

definition filter_relevant_sources ::
  "MessageSource list \<Rightarrow> string \<Rightarrow> string \<Rightarrow> MessageSource list" where
  \<comment> \<open>\<open>list(set(...))\<close> is \<open>remdups\<close> here: the lists are only counted, so the order
      in which a Python set is iterated does not show.\<close>
  "filter_relevant_sources sources answer query =
     (if sources = [] then []
      else if is_greeting_interaction answer query then []
      else if is_short_generic_answer answer then []
      else
        let all_entities = remdups (findall_entities answer @ findall_entities query);
            all_keywords =
              remdups (keywords_of filter_stopwords answer @ keywords_of filter_stopwords query)
        in if all_entities = [] \<and> length all_keywords < 1 then []
           else filter (\<lambda>source. 2 \<le> relevance_score all_entities all_keywords query source)
                  sources)"

section \<open>The transcription-error corrector\<close>

text \<open>
  The call of the language model is the only step of the corrector that can raise. Its
  prompt is a fixed template filled with the query, the texts and timestamps of the first
  three sources and the answer; the model takes the outcome of the call as a function of
  that data.
\<close>

type_synonym llm = "string \<times> MessageSource list \<times> string \<Rightarrow> exn + string"

definition code_fence :: string where
  "code_fence = replicate 3 (CHR 0x60)"

definition clean_corrected_answer :: "string \<Rightarrow> string" where
  "clean_corrected_answer response =
     (let corrected_answer = strip response in
      if startswith corrected_answer code_fence
      then join [CHR 0x0A]
             (filter (\<lambda>line. \<not> startswith (strip line) code_fence)
                (split_on (CHR 0x0A) corrected_answer))
      else corrected_answer)"

definition post_process_answer_with_context ::
  "llm \<Rightarrow> string \<Rightarrow> MessageSource list \<Rightarrow> string \<Rightarrow> string" where
  "post_process_answer_with_context gpt_4o_mini_complete answer sources query =
     (case gpt_4o_mini_complete (query, take 3 sources, answer) of
        Inl e \<Rightarrow> answer
      | Inr corrected_answer \<Rightarrow> clean_corrected_answer corrected_answer)"


section \<open>Numbers read from text\<close>

text \<open>
  \<open>float(s)\<close> and \<open>int(s)\<close> on a string. Both strip whitespace (a smaller class than
  \<open>str.isspace\<close>), accept a sign and allow single underscores between digits. \<open>float\<close>
  also accepts \<open>inf\<close>, \<open>infinity\<close> and \<open>nan\<close> in any case, and a decimal number too
  large for a double reads as an infinity. A finite value is kept as the exact decimal:
  the rounding to 53 bits is not modelled. \<open>None\<close> is \<open>ValueError\<close>.
\<close>

datatype pyfloat = Finite real | PosInf | NegInf | NaN

definition is_digit :: "char \<Rightarrow> bool" where
  "is_digit c = (let n = (of_char c :: nat) in 48 \<le> n \<and> n \<le> 57)"

definition digits_val :: "string \<Rightarrow> nat" where
  "digits_val ds = foldl (\<lambda>acc c. 10 * acc + ((of_char c :: nat) - 48)) 0 ds"

definition num_isspace :: "char \<Rightarrow> bool" where
  "num_isspace c = (let n = (of_char c :: nat) in
     (9 \<le> n \<and> n \<le> 13) \<or> n = 32 \<or> n = 133 \<or> n = 160)"

definition num_strip :: "string \<Rightarrow> string" where
  "num_strip s = rev (dropWhile num_isspace (rev (dropWhile num_isspace s)))"

fun underscores_ok :: "char option \<Rightarrow> string \<Rightarrow> bool" where
  "underscores_ok prev [] = (prev \<noteq> Some (CHR ''_''))"
| "underscores_ok prev (c # cs) =
     (if c = CHR ''_''
      then (case prev of None \<Rightarrow> False | Some p \<Rightarrow> is_digit p) \<and> underscores_ok (Some c) cs
      else (prev = Some (CHR ''_'') \<longrightarrow> is_digit c) \<and> underscores_ok (Some c) cs)"

definition split_sign :: "string \<Rightarrow> bool \<times> string" where
  "split_sign s =
     (case s of [] \<Rightarrow> (False, [])
      | c # cs \<Rightarrow> if c = CHR ''-'' then (True, cs)
                  else if c = CHR ''+'' then (False, cs) else (False, s))"

definition parse_exponent :: "string \<Rightarrow> int option" where
  "parse_exponent s =
     (case s of [] \<Rightarrow> Some 0
      | c # cs \<Rightarrow>
          if c = CHR ''e'' \<or> c = CHR ''E''
          then (case split_sign cs of
                  (neg, ds) \<Rightarrow>
                    if ds \<noteq> [] \<and> list_all is_digit ds
                    then Some (if neg then - int (digits_val ds) else int (digits_val ds))
                    else None)
          else None)"

definition double_limit :: real where
  \<comment> \<open>the least magnitude that rounds to an infinity: \<open>2 ^ 1024 - 2 ^ 970\<close>, written out\<close>
  "double_limit =
     179769313486231580793728971405303415079934132710037826936173778980444968292764750946649017977587207096330286416692887910946555547851940402630657488671505820681908902000708383676273854845817711531764475730270069855571366959622842914819860834936475292719074168444365510704342711559699508093042880177904174497792"

definition to_double :: "real \<Rightarrow> pyfloat" where
  "to_double x = (if double_limit \<le> x then PosInf
                  else if x \<le> - double_limit then NegInf else Finite x)"

definition scale10 :: "real \<Rightarrow> int \<Rightarrow> real" where
  "scale10 m e = (if 0 \<le> e then m * 10 ^ nat e else m / 10 ^ nat (- e))"

definition parse_float :: "string \<Rightarrow> pyfloat option" where
  "parse_float s =
     (case split_sign s of
        (neg, r) \<Rightarrow>
          if lower r = ''inf'' \<or> lower r = ''infinity'' then Some (if neg then NegInf else PosInf)
          else if lower r = ''nan'' then Some NaN
          else
            let ip = takeWhile is_digit r;
                r1 = dropWhile is_digit r;
                has_point = (r1 \<noteq> [] \<and> hd r1 = CHR ''.'');
                fp = (if has_point then takeWhile is_digit (tl r1) else []);
                r2 = (if has_point then dropWhile is_digit (tl r1) else r1)
            in if ip = [] \<and> fp = [] then None
               else (case parse_exponent r2 of
                       None \<Rightarrow> None
                     | Some e \<Rightarrow>
                         let m = real (digits_val (ip @ fp));
                             x = scale10 m (e - int (length fp))
                         in Some (to_double (if neg then - x else x))))"

definition py_float :: "string \<Rightarrow> pyfloat option" where
  "py_float str =
     (let s = num_strip str in
      if underscores_ok None s then parse_float (filter (\<lambda>c. c \<noteq> CHR ''_'') s) else None)"

definition int_of_string :: "string \<Rightarrow> int option" where
  \<comment> \<open>\<open>int(s)\<close>\<close>
  "int_of_string str =
     (case split_sign (num_strip str) of
        (neg, r) \<Rightarrow>
          if r \<noteq> [] \<and> underscores_ok None r \<and> list_all (\<lambda>c. is_digit c \<or> c = CHR ''_'') r
          then (let n = int (digits_val (filter is_digit r)) in Some (if neg then - n else n))
          else None)"

definition float_eq :: "pyfloat \<Rightarrow> pyfloat \<Rightarrow> bool" where
  \<comment> \<open>\<open>==\<close> on two float objects made by separate calls of \<open>float\<close>: a NaN equals nothing\<close>
  "float_eq a b = (a \<noteq> NaN \<and> b \<noteq> NaN \<and> a = b)"

fun digits_of :: "nat \<Rightarrow> string" where
  "digits_of n = (if n < 10 then [char_of (48 + n)]
                  else digits_of (n div 10) @ [char_of (48 + n mod 10)])"

definition str_int :: "int \<Rightarrow> string" where
  \<comment> \<open>\<open>str(n)\<close> of an integer, as an f-string prints it\<close>
  "str_int n = (if n < 0 then CHR ''-'' # digits_of (nat (- n)) else digits_of (nat n))"

section \<open>Metadata headers in a retrieval context\<close>

text \<open>
  The strict pattern of \<open>_parse_sources_from_lightrag\<close>, matched with \<open>re.IGNORECASE\<close>:
  \<^verbatim>\<open>\[video_id=(UUID);start=([^;]+);end=([^;]+);segment_id=([^\]]+)\]\<close>. Each
  greedy class stops at the first character of the literal that follows it, so a match
  attempt reads the text once, left to right.
\<close>

definition is_hex :: "char \<Rightarrow> bool" where
  "is_hex c = (let n = (of_char c :: nat) in
     (48 \<le> n \<and> n \<le> 57) \<or> (65 \<le> n \<and> n \<le> 70) \<or> (97 \<le> n \<and> n \<le> 102))"

definition uuid_shape :: "bool list" where
  "uuid_shape = replicate 8 True @ [False] @ replicate 4 True @ [False] @ replicate 4 True
     @ [False] @ replicate 4 True @ [False] @ replicate 12 True"

definition is_uuid :: "string \<Rightarrow> bool" where
  \<comment> \<open>\<open>[0-9a-f]{8}-[0-9a-f]{4}-[0-9a-f]{4}-[0-9a-f]{4}-[0-9a-f]{12}\<close>, any case\<close>
  "is_uuid s = list_all2 (\<lambda>h c. if h then is_hex c else c = CHR ''-'') uuid_shape s"

fun drop_literal_ci :: "string \<Rightarrow> string \<Rightarrow> string option" where
  \<comment> \<open>a literal (given in lower case) matched in any case: the text after it\<close>
  "drop_literal_ci [] s = Some s"
| "drop_literal_ci (p # ps) [] = None"
| "drop_literal_ci (p # ps) (c # cs) = (if lower_char c = p then drop_literal_ci ps cs else None)"

definition match_header :: "string \<Rightarrow> ((string \<times> string \<times> string \<times> string) \<times> nat) option" where
  \<comment> \<open>the four groups and the length of the match at the head of the text\<close>
  "match_header s =
     (case drop_literal_ci ''[video_id='' s of None \<Rightarrow> None | Some r1 \<Rightarrow>
        if \<not> is_uuid (take 36 r1) then None
        else (case drop_literal_ci '';start='' (drop 36 r1) of None \<Rightarrow> None | Some r2 \<Rightarrow>
          let start_str = takeWhile (\<lambda>c. c \<noteq> CHR '';'') r2 in
          if start_str = [] then None
          else (case drop_literal_ci '';end='' (dropWhile (\<lambda>c. c \<noteq> CHR '';'') r2) of
                  None \<Rightarrow> None | Some r3 \<Rightarrow>
            let end_str = takeWhile (\<lambda>c. c \<noteq> CHR '';'') r3 in
            if end_str = [] then None
            else (case drop_literal_ci '';segment_id='' (dropWhile (\<lambda>c. c \<noteq> CHR '';'') r3) of
                    None \<Rightarrow> None | Some r4 \<Rightarrow>
              let segment_id_str = takeWhile (\<lambda>c. c \<noteq> CHR '']'') r4;
                  r5 = dropWhile (\<lambda>c. c \<noteq> CHR '']'') r4
              in if segment_id_str = [] \<or> r5 = [] then None
                 else Some ((take 36 r1, start_str, end_str, segment_id_str),
                            length s - length r5 + 1)))))"

fun findall_headers_aux :: "nat \<Rightarrow> string \<Rightarrow> (string \<times> string \<times> string \<times> string) list" where
  "findall_headers_aux skip [] = []"
| "findall_headers_aux skip (c # cs) =
     (if 0 < skip then findall_headers_aux (skip - 1) cs
      else (case match_header (c # cs) of
              None \<Rightarrow> findall_headers_aux 0 cs
            | Some (groups, n) \<Rightarrow> groups # findall_headers_aux (n - 1) cs))"

definition findall_headers :: "string \<Rightarrow> (string \<times> string \<times> string \<times> string) list" where
  "findall_headers s = findall_headers_aux 0 s"

definition re_match_uuid :: "string \<Rightarrow> bool" where
  \<comment> \<open>\<open>re.match\<close> of the anchored UUID pattern; \<open>$\<close> also matches before a final newline\<close>
  "re_match_uuid s =
     (is_uuid s \<or> (s \<noteq> [] \<and> last s = CHR 0x0A \<and> is_uuid (butlast s)))"

text \<open>
  The loose pattern \<^verbatim>\<open>(\[video_id=[^\]]+\])\<close> of \<open>re.split\<close>, matched in exact case.
  \<open>re_split\<close> is the list \<open>parts\<close>: text, header, text, header, ..., text.
\<close>

definition match_loose_header :: "string \<Rightarrow> nat option" where
  "match_loose_header s =
     (if startswith s ''[video_id=''
      then (let body = takeWhile (\<lambda>c. c \<noteq> CHR '']'') (drop 10 s);
                r = dropWhile (\<lambda>c. c \<noteq> CHR '']'') (drop 10 s)
            in if body = [] \<or> r = [] then None else Some (10 + length body + 1))
      else None)"

fun re_split_aux :: "string \<Rightarrow> nat \<Rightarrow> string \<Rightarrow> string list" where
  "re_split_aux cur skip [] = [cur]"
| "re_split_aux cur skip (c # cs) =
     (if 0 < skip then re_split_aux cur (skip - 1) cs
      else (case match_loose_header (c # cs) of
              None \<Rightarrow> re_split_aux (cur @ [c]) 0 cs
            | Some n \<Rightarrow> cur # take n (c # cs) # re_split_aux [] (n - 1) cs))"

definition re_split :: "string \<Rightarrow> string list" where
  "re_split s = re_split_aux [] 0 s"

fun pairs_from :: "string list \<Rightarrow> (string \<times> string) list" where
  \<comment> \<open>the loop \<open>for i in range(1, len(parts), 2)\<close>, reading \<open>parts\<close> from index 1\<close>
  "pairs_from (header # text_after # rest) = (header, take 500 text_after) # pairs_from rest"
| "pairs_from _ = []"

definition header_text_pairs :: "string \<Rightarrow> (string \<times> string) list" where
  "header_text_pairs lightrag_response = pairs_from (tl (re_split lightrag_response))"


section \<open>The database and the services around a turn\<close>

text \<open>
  Rows carry the columns the chat code reads. A UUID column is the canonical lower-case
  string that \<open>str\<close> gives; \<open>uuid_eq\<close> is the comparison of such a column with a string
  parameter, which the database reads in any case. A table is the list of its rows in
  the order the database returns them; \<open>first()\<close> takes the head of the filtered list
  and \<open>order_by\<close> is a stable sort.
\<close>

datatype Role = SUPER_ADMIN | ORG_ADMIN | USER

datatype SecurityLevel = PUBLIC | INTERNAL | CONFIDENTIAL | SECRET

record User =
  u_id :: string
  u_role :: Role
  u_organization_id :: "string option"

record Video =
  v_id :: string
  v_title :: string
  v_organization_id :: string
  v_security_level :: SecurityLevel

record VideoSegment =
  s_video_id :: string
  s_segment_id :: int
  s_start_time :: real
  s_text :: string

record VideoAccessPermission =
  p_video_id :: string
  p_user_id :: "string option"

record Conversation =
  c_id :: string
  c_user_id :: string
  c_organization_id :: "string option"
  c_title :: string

record Message =
  m_conversation_id :: string
  m_role :: string
  m_content :: string
  m_sources :: "MessageSource list option"

record database =
  videos :: "Video list"
  video_segments :: "VideoSegment list"
  video_access_permissions :: "VideoAccessPermission list"
  conversations :: "Conversation list"
  messages :: "Message list"

datatype query =
    VideoQuery string "string option"
  | PermissionQuery string string
  | SegmentAtQuery string pyfloat
  | SegmentIdQuery string int
  | AnySegmentQuery string
  | SegmentSearchQuery "string list" "string list"
  | KeywordSearchQuery "string list"
  | SegmentVideoQuery string
  | ContextSegmentQuery string real
  | ClosestSegmentQuery string real
  | PreviousSegmentsQuery string real
  | NextSegmentsQuery string real

type_synonym search_args =
  "string \<times> string \<times> string \<times> nat \<times> (string \<times> string) list option \<times> bool \<times> string option"

text \<open>
  What a turn does not decide itself: whether a read of the database raises, how the
  database matches \<open>ILIKE\<close>, the order in which Python iterates a set of strings, the
  identifier given to a new conversation, and the outcomes of the calls to the retrieval
  backend (\<open>search_async\<close> with organization, query, mode, \<open>top_k\<close>, history,
  \<open>only_need_context\<close> and \<open>user_prompt\<close>) and to the language model.
\<close>

record env =
  db_raises :: "query \<Rightarrow> bool"
  ilike :: "string \<Rightarrow> string \<Rightarrow> bool"
  set_order :: "string list \<Rightarrow> string list"
  new_conversation_id :: string
  get_lightrag_service :: "exn + unit"
  search_async :: "search_args \<Rightarrow> exn + string"
  gpt_4o_mini_complete :: llm

definition run_query :: "env \<Rightarrow> query \<Rightarrow> 'a \<Rightarrow> exn + 'a" where
  "run_query e q result = (if db_raises e q then Inl (Exception ''database error'') else Inr result)"

definition uuid_eq :: "string \<Rightarrow> string \<Rightarrow> bool" where
  "uuid_eq column param = (column = lower param)"

definition list_of_set :: "env \<Rightarrow> string list \<Rightarrow> string list" where
  \<comment> \<open>\<open>list(set(xs))\<close>\<close>
  "list_of_set e xs = set_order e (remdups xs)"

subsection \<open>\<^verbatim>\<open>services/access_control.py\<close>\<close>

definition check_security_clearance :: "User \<Rightarrow> SecurityLevel \<Rightarrow> bool" where
  "check_security_clearance user security_level =
     (if security_level = PUBLIC \<or> security_level = INTERNAL then True
      else if u_role user = ORG_ADMIN \<or> u_role user = SUPER_ADMIN then True
      else False)"

definition can_access_video :: "env \<Rightarrow> database \<Rightarrow> User \<Rightarrow> Video \<Rightarrow> exn + bool" where
  "can_access_video e db user video =
     (if u_role user = SUPER_ADMIN then Inr True
      else if u_role user = ORG_ADMIN \<and> u_organization_id user = Some (v_organization_id video)
      then Inr True
      else if u_organization_id user \<noteq> Some (v_organization_id video) then Inr False
      else (case run_query e (PermissionQuery (v_id video) (u_id user))
                   (find (\<lambda>p. p_video_id p = v_id video \<and> p_user_id p = Some (u_id user))
                      (video_access_permissions db)) of
              Inl ex \<Rightarrow> Inl ex
            | Inr explicit_permission \<Rightarrow>
                if explicit_permission \<noteq> None then Inr True
                else Inr (check_security_clearance user (v_security_level video))))"

subsection \<open>Building a source from a segment\<close>

text \<open>
  The three searches of \<^verbatim>\<open>api/chat.py\<close> build a \<open>MessageSource\<close> with the same
  expression, from the video and the segment they found.
\<close>

definition excerpt :: "string \<Rightarrow> string" where
  \<comment> \<open>\<open>text[:200] + "..." if len(text) > 200 else text\<close>\<close>
  "excerpt t = (if 200 < length t then take 200 t @ ''...'' else t)"

definition make_source :: "Video \<Rightarrow> VideoSegment \<Rightarrow> MessageSource" where
  "make_source video segment =
     \<lparr>video_id = v_id video,
      video_title = v_title video,
      timestamp = s_start_time segment,
      source_text = excerpt (s_text segment),
      url = ''/videos/'' @ v_id video @ ''?t='' @ str_int (py_int (s_start_time segment))\<rparr>"

subsection \<open>\<open>_parse_sources_from_lightrag\<close>\<close>

definition query_keywords_of :: "string \<Rightarrow> string list" where
  \<comment> \<open>\<open>[word.lower() for word in query.split() if len(word) > 2]\<close>\<close>
  "query_keywords_of query = map lower (filter (\<lambda>word. 2 < length word) (split query))"

definition local_context_text :: "(string \<times> string) list \<Rightarrow> nat \<Rightarrow> string" where
  \<comment> \<open>\<open>context_text\<close>: the text paired with the header of this index, in lower case\<close>
  "local_context_text pairs match_idx =
     (if match_idx < length pairs then lower (snd (pairs ! match_idx)) else [])"

definition has_relevant_content :: "string list \<Rightarrow> string \<Rightarrow> string \<Rightarrow> bool" where
  "has_relevant_content query_keywords segment_text_lower context_text =
     (if query_keywords \<noteq> []
      then (let segment_matches =
                  length (filter (\<lambda>keyword. contains segment_text_lower keyword) query_keywords);
                context_matches =
                  length (filter (\<lambda>keyword. contains context_text keyword) query_keywords)
            in 0 < segment_matches \<or> 0 < context_matches)
      else True)"

definition near_start :: "pyfloat \<Rightarrow> real \<Rightarrow> bool" where
  \<comment> \<open>\<open>start_time - 0.1 <= t <= start_time + 0.1\<close> for the start of a header; with an
      infinity or a NaN no stored time satisfies both bounds\<close>
  "near_start start_time t =
     (case start_time of Finite x \<Rightarrow> x - 1 / 10 \<le> t \<and> t \<le> x + 1 / 10 | _ \<Rightarrow> False)"

definition find_segment ::
  "env \<Rightarrow> database \<Rightarrow> string \<Rightarrow> pyfloat \<Rightarrow> string \<Rightarrow> exn + VideoSegment option" where
  "find_segment e db video_id_str start_time segment_id_str =
     (case run_query e (SegmentAtQuery video_id_str start_time)
             (find (\<lambda>s. uuid_eq (s_video_id s) video_id_str \<and> near_start start_time (s_start_time s))
                (video_segments db)) of
        Inl ex \<Rightarrow> Inl ex
      | Inr by_time \<Rightarrow>
          (case (if by_time = None
                 then (case int_of_string segment_id_str of
                         None \<Rightarrow> Inr None
                       | Some segment_id_int \<Rightarrow>
                           run_query e (SegmentIdQuery video_id_str segment_id_int)
                             (find (\<lambda>s. uuid_eq (s_video_id s) video_id_str
                                         \<and> s_segment_id s = segment_id_int)
                                (video_segments db)))
                 else Inr by_time) of
             Inl ex \<Rightarrow> Inl ex
           | Inr by_id \<Rightarrow>
               if by_id = None
               then run_query e (AnySegmentQuery video_id_str)
                      (find (\<lambda>s. uuid_eq (s_video_id s) video_id_str) (video_segments db))
               else Inr by_id))"

definition resolve_header ::
  "env \<Rightarrow> database \<Rightarrow> User \<Rightarrow> string list \<Rightarrow> (string \<times> string) list
     \<Rightarrow> nat \<Rightarrow> string \<Rightarrow> pyfloat \<Rightarrow> string \<Rightarrow> exn + MessageSource option" where
  \<comment> \<open>the body of the \<open>try\<close> of one header: \<open>Inr None\<close> is \<open>continue\<close>\<close>
  "resolve_header e db current_user query_keywords pairs match_idx video_id_str start_time
       segment_id_str =
     (case run_query e (VideoQuery video_id_str (u_organization_id current_user))
             (find (\<lambda>v. uuid_eq (v_id v) video_id_str
                         \<and> Some (v_organization_id v) = u_organization_id current_user)
                (videos db)) of
        Inl ex \<Rightarrow> Inl ex
      | Inr None \<Rightarrow> Inr None
      | Inr (Some video) \<Rightarrow>
          (case can_access_video e db current_user video of
             Inl ex \<Rightarrow> Inl ex
           | Inr False \<Rightarrow> Inr None
           | Inr True \<Rightarrow>
               (case find_segment e db video_id_str start_time segment_id_str of
                  Inl ex \<Rightarrow> Inl ex
                | Inr None \<Rightarrow> Inr None
                | Inr (Some segment) \<Rightarrow>
                    if has_relevant_content query_keywords (lower (s_text segment))
                         (local_context_text pairs match_idx)
                    then Inr (Some (make_source video segment))
                    else Inr None)))"

definition key_seen :: "string \<times> pyfloat \<Rightarrow> (string \<times> pyfloat) list \<Rightarrow> bool" where
  \<comment> \<open>\<open>key in seen\<close> for a key \<open>(video_id_str, start_time)\<close>\<close>
  "key_seen key seen = list_ex (\<lambda>k. fst k = fst key \<and> float_eq (snd k) (snd key)) seen"

fun parse_loop ::
  "env \<Rightarrow> database \<Rightarrow> User \<Rightarrow> string list \<Rightarrow> (string \<times> string) list \<Rightarrow> nat
     \<Rightarrow> (string \<times> string \<times> string \<times> string) list \<Rightarrow> (string \<times> pyfloat) list
     \<Rightarrow> MessageSource list \<Rightarrow> MessageSource list" where
  "parse_loop e db current_user query_keywords pairs match_idx [] seen sources = sources"
| "parse_loop e db current_user query_keywords pairs match_idx
       ((video_id_raw, start_str, end_str, segment_id_str) # rest) seen sources =
     (let video_id_str = strip video_id_raw in
      if \<not> re_match_uuid video_id_str
      then parse_loop e db current_user query_keywords pairs (Suc match_idx) rest seen sources
      else (case py_float start_str of
        None \<Rightarrow> parse_loop e db current_user query_keywords pairs (Suc match_idx) rest seen sources
      | Some start_time \<Rightarrow>
          if key_seen (video_id_str, start_time) seen
          then parse_loop e db current_user query_keywords pairs (Suc match_idx) rest seen sources
          else (case resolve_header e db current_user query_keywords pairs match_idx
                       video_id_str start_time segment_id_str of
                  Inr (Some source) \<Rightarrow>
                    if 20 \<le> length (sources @ [source]) then sources @ [source]
                    else parse_loop e db current_user query_keywords pairs (Suc match_idx) rest
                           ((video_id_str, start_time) # seen) (sources @ [source])
                | _ \<Rightarrow> parse_loop e db current_user query_keywords pairs (Suc match_idx) rest
                         ((video_id_str, start_time) # seen) sources)))"

definition parse_sources_from_lightrag ::
  "env \<Rightarrow> database \<Rightarrow> string \<Rightarrow> string \<Rightarrow> User \<Rightarrow> MessageSource list" where
  "parse_sources_from_lightrag e db lightrag_response query current_user =
     parse_loop e db current_user (query_keywords_of query) (header_text_pairs lightrag_response)
       0 (findall_headers lightrag_response) [] []"

text \<open>
  The first half of the loop body (lines 576 to 598) does not read the sources found so
  far: \<open>retained_headers\<close> is the list of the headers, with their index among the
  matches, that pass the identifier check, the \<open>float\<close> conversion and the duplicate check,
  and so reach the \<open>try\<close>. \<open>resolve_retained\<close> is the second half, run over that list.
\<close>

fun retained_headers ::
  "nat \<Rightarrow> (string \<times> string \<times> string \<times> string) list \<Rightarrow> (string \<times> pyfloat) list
     \<Rightarrow> (nat \<times> string \<times> pyfloat \<times> string \<times> string) list" where
  "retained_headers match_idx [] seen = []"
| "retained_headers match_idx ((video_id_raw, start_str, end_str, segment_id_str) # rest) seen =
     (let video_id_str = strip video_id_raw in
      if \<not> re_match_uuid video_id_str then retained_headers (Suc match_idx) rest seen
      else (case py_float start_str of
        None \<Rightarrow> retained_headers (Suc match_idx) rest seen
      | Some start_time \<Rightarrow>
          if key_seen (video_id_str, start_time) seen
          then retained_headers (Suc match_idx) rest seen
          else (match_idx, video_id_str, start_time, end_str, segment_id_str)
                 # retained_headers (Suc match_idx) rest ((video_id_str, start_time) # seen)))"

definition header_tuples :: "string \<Rightarrow> (nat \<times> string \<times> pyfloat \<times> string \<times> string) list" where
  "header_tuples lightrag_response = retained_headers 0 (findall_headers lightrag_response) []"

fun resolve_retained ::
  "env \<Rightarrow> database \<Rightarrow> User \<Rightarrow> string list \<Rightarrow> (string \<times> string) list
     \<Rightarrow> (nat \<times> string \<times> pyfloat \<times> string \<times> string) list
     \<Rightarrow> MessageSource list \<Rightarrow> MessageSource list" where
  "resolve_retained e db current_user query_keywords pairs [] sources = sources"
| "resolve_retained e db current_user query_keywords pairs
       ((match_idx, video_id_str, start_time, end_str, segment_id_str) # rest) sources =
     (case resolve_header e db current_user query_keywords pairs match_idx
             video_id_str start_time segment_id_str of
        Inr (Some source) \<Rightarrow>
          if 20 \<le> length (sources @ [source]) then sources @ [source]
          else resolve_retained e db current_user query_keywords pairs rest (sources @ [source])
      | _ \<Rightarrow> resolve_retained e db current_user query_keywords pairs rest sources)"


subsection \<open>\<open>_search_sources_from_answer\<close>\<close>

definition search_stopwords :: "string list" where
  "search_stopwords = [''som'', ''det'', ''er'', ''og'', ''har'', ''kan'', ''for'', ''med'',
     ''den'', ''til'', ''der'', ''sitt'', ''sin'', ''sine'', ''han'', ''hun'', ''de'', ''som'',
     ''en'', ''et'', [CHR ''p'', CHR 0xE5], ''av'', ''med'', ''ved'', ''om'', ''i'', ''jobb'',
     ''arbeid'']"

definition like_pattern :: "string \<Rightarrow> string" where
  \<comment> \<open>the f-string \<open>"%{term}%"\<close>\<close>
  "like_pattern term = ''%'' @ term @ ''%''"

definition in_organization :: "database \<Rightarrow> User \<Rightarrow> VideoSegment \<Rightarrow> bool" where
  \<comment> \<open>\<open>join(Video)\<close> with \<open>Video.organization_id == current_user.organization_id\<close>\<close>
  "in_organization db current_user segment =
     (case find (\<lambda>v. v_id v = s_video_id segment) (videos db) of
        None \<Rightarrow> False
      | Some v \<Rightarrow> Some (v_organization_id v) = u_organization_id current_user)"

definition segment_video :: "env \<Rightarrow> database \<Rightarrow> VideoSegment \<Rightarrow> exn + Video" where
  \<comment> \<open>the relationship \<open>segment.video\<close>, loaded on access; with no such row the
      attribute is \<open>None\<close> and the use of it raises\<close>
  "segment_video e db segment =
     (case run_query e (SegmentVideoQuery (s_video_id segment))
             (find (\<lambda>v. v_id v = s_video_id segment) (videos db)) of
        Inl ex \<Rightarrow> Inl ex
      | Inr None \<Rightarrow> Inl (Exception ''AttributeError'')
      | Inr (Some video) \<Rightarrow> Inr video)"

definition segment_score :: "string list \<Rightarrow> string list \<Rightarrow> VideoSegment \<Rightarrow> nat" where
  "segment_score all_entities all_keywords segment =
     (let segment_text_lower = lower (s_text segment) in
      3 * length (filter (\<lambda>entity. contains segment_text_lower (lower entity)) all_entities)
      + length (filter (\<lambda>keyword. contains segment_text_lower keyword) all_keywords))"

fun answer_loop ::
  "env \<Rightarrow> database \<Rightarrow> User \<Rightarrow> nat \<Rightarrow> (nat \<times> VideoSegment) list \<Rightarrow> (string \<times> int) set
     \<Rightarrow> MessageSource list \<Rightarrow> MessageSource list" where
  \<comment> \<open>the loop over \<open>scored_segments\<close>; an exception ends the search with the sources
      found so far\<close>
  "answer_loop e db current_user limit [] seen_videos_timestamps sources = sources"
| "answer_loop e db current_user limit ((score, segment) # rest) seen_videos_timestamps sources =
     (let key = (s_video_id segment, py_int (s_start_time segment)) in
      if key \<in> seen_videos_timestamps
      then answer_loop e db current_user limit rest seen_videos_timestamps sources
      else (case segment_video e db segment of
              Inl ex \<Rightarrow> sources
            | Inr video \<Rightarrow>
                (case can_access_video e db current_user video of
                   Inl ex \<Rightarrow> sources
                 | Inr False \<Rightarrow>
                     answer_loop e db current_user limit rest
                       (insert key seen_videos_timestamps) sources
                 | Inr True \<Rightarrow>
                     if limit * 3 \<le> length (sources @ [make_source video segment])
                     then sources @ [make_source video segment]
                     else answer_loop e db current_user limit rest
                            (insert key seen_videos_timestamps)
                            (sources @ [make_source video segment]))))"

definition search_sources_from_answer ::
  "env \<Rightarrow> database \<Rightarrow> string \<Rightarrow> string \<Rightarrow> User \<Rightarrow> nat \<Rightarrow> MessageSource list" where
  "search_sources_from_answer e db answer query current_user limit =
     (let answer_entities = findall_entities answer;
          answer_keywords = keywords_of search_stopwords answer;
          query_entities = findall_entities query;
          query_keywords = keywords_of search_stopwords query;
          all_entities = list_of_set e (answer_entities @ query_entities);
          all_keywords = take 10 (list_of_set e (answer_keywords @ query_keywords))
      in if all_entities = [] \<and> all_keywords = [] then []
         else
           (case run_query e (SegmentSearchQuery (take 5 all_entities) (take 5 all_keywords))
                   (take (limit * 5)
                      (sort_key s_start_time
                         (filter (\<lambda>s. in_organization db current_user s
                              \<and> (list_ex (\<lambda>entity. ilike e (s_text s) (like_pattern entity))
                                    (take 5 all_entities)
                                 \<or> list_ex (\<lambda>keyword. ilike e (s_text s) (like_pattern keyword))
                                    (take 5 all_keywords)))
                            (video_segments db)))) of
              Inl ex \<Rightarrow> []
            | Inr segments \<Rightarrow>
                let scored_segments =
                      filter (\<lambda>(score, segment). 0 < score)
                        (map (\<lambda>segment. (segment_score all_entities all_keywords segment, segment))
                           segments);
                    sorted_segments = sort_key (\<lambda>(score, segment). - int score) scored_segments
                in answer_loop e db current_user limit sorted_segments {} []))"

subsection \<open>\<open>_search_videos_by_query\<close>\<close>

fun fallback_loop ::
  "env \<Rightarrow> database \<Rightarrow> User \<Rightarrow> nat \<Rightarrow> VideoSegment list \<Rightarrow> string set
     \<Rightarrow> MessageSource list \<Rightarrow> MessageSource list" where
  "fallback_loop e db current_user limit [] seen_videos sources = sources"
| "fallback_loop e db current_user limit (segment # rest) seen_videos sources =
     (if s_video_id segment \<in> seen_videos
      then fallback_loop e db current_user limit rest seen_videos sources
      else (case segment_video e db segment of
              Inl ex \<Rightarrow> sources
            | Inr video \<Rightarrow>
                (case can_access_video e db current_user video of
                   Inl ex \<Rightarrow> sources
                 | Inr False \<Rightarrow>
                     fallback_loop e db current_user limit rest
                       (insert (s_video_id segment) seen_videos) sources
                 | Inr True \<Rightarrow>
                     if limit \<le> length (sources @ [make_source video segment])
                     then sources @ [make_source video segment]
                     else fallback_loop e db current_user limit rest
                            (insert (s_video_id segment) seen_videos)
                            (sources @ [make_source video segment]))))"

definition search_videos_by_query ::
  "env \<Rightarrow> database \<Rightarrow> string \<Rightarrow> User \<Rightarrow> nat \<Rightarrow> MessageSource list" where
  "search_videos_by_query e db query current_user limit =
     (let keywords = map strip (filter (\<lambda>k. 2 < length k) (split (lower query))) in
      if keywords = [] then []
      else
        (case run_query e (KeywordSearchQuery (take 3 keywords))
                (take (limit * 3)
                   (filter (\<lambda>s. in_organization db current_user s
                        \<and> list_ex (\<lambda>keyword. ilike e (s_text s) (like_pattern keyword))
                             (take 3 keywords))
                      (video_segments db))) of
           Inl ex \<Rightarrow> []
         | Inr segments \<Rightarrow> fallback_loop e db current_user limit segments {} []))"

subsection \<open>\<open>_add_context_to_sources\<close>\<close>

definition context_blob :: "VideoSegment list \<Rightarrow> VideoSegment \<Rightarrow> VideoSegment list \<Rightarrow> string" where
  \<comment> \<open>\<open>" ".join(context_parts)\<close>; \<open>previous_segments\<close> comes latest first\<close>
  "context_blob previous_segments segment next_segments =
     join '' ''
       ((if previous_segments \<noteq> [] then ''...'' # map s_text (rev previous_segments) else [])
        @ [''[MAIN SEGMENT: '' @ s_text segment @ '']'']
        @ (if next_segments \<noteq> [] then map s_text next_segments @ [''...''] else []))"

definition locate_segment :: "env \<Rightarrow> database \<Rightarrow> MessageSource \<Rightarrow> exn + VideoSegment option" where
  "locate_segment e db source =
     (case run_query e (ContextSegmentQuery (video_id source) (timestamp source))
             (find (\<lambda>s. uuid_eq (s_video_id s) (video_id source)
                         \<and> timestamp source - 1 / 2 \<le> s_start_time s
                         \<and> s_start_time s \<le> timestamp source + 1 / 2)
                (video_segments db)) of
        Inl ex \<Rightarrow> Inl ex
      | Inr (Some segment) \<Rightarrow> Inr (Some segment)
      | Inr None \<Rightarrow>
          run_query e (ClosestSegmentQuery (video_id source) (timestamp source))
            (case sort_key (\<lambda>s. \<bar>s_start_time s - timestamp source\<bar>)
                    (filter (\<lambda>s. uuid_eq (s_video_id s) (video_id source)) (video_segments db)) of
               [] \<Rightarrow> None
             | closest # others \<Rightarrow> Some closest))"

definition add_context_to_source ::
  "env \<Rightarrow> database \<Rightarrow> nat \<Rightarrow> MessageSource \<Rightarrow> exn + MessageSource" where
  \<comment> \<open>the body of the \<open>try\<close> for one source: the source to append\<close>
  "add_context_to_source e db context_segments source =
     (case locate_segment e db source of
        Inl ex \<Rightarrow> Inl ex
      | Inr None \<Rightarrow> Inr source
      | Inr (Some segment) \<Rightarrow>
          (case run_query e (PreviousSegmentsQuery (video_id source) (s_start_time segment))
                  (take context_segments
                     (sort_key (\<lambda>s. - s_start_time s)
                        (filter (\<lambda>s. uuid_eq (s_video_id s) (video_id source)
                                      \<and> s_start_time s < s_start_time segment)
                           (video_segments db)))) of
             Inl ex \<Rightarrow> Inl ex
           | Inr previous_segments \<Rightarrow>
               (case run_query e (NextSegmentsQuery (video_id source) (s_start_time segment))
                       (take context_segments
                          (sort_key s_start_time
                             (filter (\<lambda>s. uuid_eq (s_video_id s) (video_id source)
                                           \<and> s_start_time segment < s_start_time s)
                                (video_segments db)))) of
                  Inl ex \<Rightarrow> Inl ex
                | Inr next_segments \<Rightarrow>
                    Inr \<lparr>video_id = video_id source,
                         video_title = video_title source,
                         timestamp = timestamp source,
                         source_text = context_blob previous_segments segment next_segments,
                         url = url source\<rparr>)))"

definition add_context_to_sources ::
  "env \<Rightarrow> database \<Rightarrow> MessageSource list \<Rightarrow> User \<Rightarrow> nat \<Rightarrow> MessageSource list" where
  "add_context_to_sources e db sources current_user context_segments =
     map (\<lambda>source. case add_context_to_source e db context_segments source of
                     Inl ex \<Rightarrow> source
                   | Inr enhanced_source \<Rightarrow> enhanced_source)
       sources"


subsection \<open>\<^verbatim>\<open>services/conversation_service.py\<close>\<close>

text \<open>
  The columns a database fills in by itself (the identifier and the creation time of a
  message) are not modelled: the assistant's row stands for both in the response.
\<close>

definition create_conversation :: "env \<Rightarrow> database \<Rightarrow> User \<Rightarrow> string \<Rightarrow> database \<times> Conversation" where
  "create_conversation e db user title =
     (let conversation =
            \<lparr>c_id = new_conversation_id e,
             c_user_id = u_id user,
             c_organization_id = u_organization_id user,
             c_title = (if title = [] then ''New Conversation'' else title)\<rparr>
      in (db\<lparr>conversations := conversations db @ [conversation]\<rparr>, conversation))"

definition get_conversation :: "database \<Rightarrow> string \<Rightarrow> User \<Rightarrow> Conversation option" where
  "get_conversation db cid user =
     find (\<lambda>c. c_id c = cid \<and> c_user_id c = u_id user
                \<and> c_organization_id c = u_organization_id user)
       (conversations db)"

definition add_message ::
  "database \<Rightarrow> Conversation \<Rightarrow> string \<Rightarrow> string \<Rightarrow> MessageSource list option
     \<Rightarrow> database \<times> Message" where
  "add_message db conversation role content srcs =
     (let msg =
            \<lparr>m_conversation_id = c_id conversation, m_role = role, m_content = content,
             m_sources = srcs\<rparr>
      in (db\<lparr>messages := messages db @ [msg]\<rparr>, msg))"

definition get_messages :: "database \<Rightarrow> string \<Rightarrow> User \<Rightarrow> nat \<Rightarrow> Message list" where
  "get_messages db cid user limit =
     (case get_conversation db cid user of
        None \<Rightarrow> []
      | Some conversation \<Rightarrow>
          (let rows = filter (\<lambda>m. m_conversation_id m = cid) (messages db)
           in if limit \<noteq> 0 then take limit rows else rows))"

definition get_conversation_history_for_lightrag ::
  "database \<Rightarrow> string \<Rightarrow> User \<Rightarrow> nat \<Rightarrow> (string \<times> string) list" where
  "get_conversation_history_for_lightrag db cid user max_messages =
     map (\<lambda>msg. (m_role msg, m_content msg)) (get_messages db cid user max_messages)"

subsection \<open>\<open>send_message\<close>\<close>

record ChatRequest =
  message :: string
  conversation_id :: "string option"

record ChatResponse =
  response_conversation_id :: string
  response_message :: Message
  answer :: string
  sources :: "MessageSource list"

definition custom_prompt :: string where
  "custom_prompt = join [CHR 0x0A]
     [[],
      ''You are a helpful video search assistant. When answering questions:'',
      ''1. Provide a natural, conversational response'',
      ''2. Reference specific videos where information was found'',
      ''3. Mention timestamps when relevant'',
      ''4. Be concise but informative'',
      ''5. If the user asks a follow-up question, use the conversation context'',
      ''6. If information spans multiple videos, mention all relevant sources'',
      []]"

definition validation_stopwords :: "string list" where
  "validation_stopwords = [''som'', ''det'', ''er'', ''og'', ''har'', ''kan'', ''for'', ''med'',
     ''den'', ''til'', ''der'', ''sitt'', ''sin'', ''sine'']"

definition validate_sources ::
  "env \<Rightarrow> database \<Rightarrow> User \<Rightarrow> string \<Rightarrow> string \<Rightarrow> MessageSource list \<Rightarrow> MessageSource list" where
  \<comment> \<open>the last branch of the merge: sources came from the context only\<close>
  "validate_sources e db current_user lightrag_answer query srcs =
     (let answer_entities = findall_entities lightrag_answer;
          answer_keywords = keywords_of validation_stopwords lightrag_answer;
          relevant_source_count =
            length (filter
              (\<lambda>source.
                 let source_text_lower = lower (source_text source);
                     has_entity =
                       list_ex (\<lambda>entity. contains source_text_lower (lower entity)) answer_entities;
                     has_keyword =
                       (2 \<le> length (filter (\<lambda>keyword. contains source_text_lower keyword)
                                      answer_keywords))
                 in has_entity \<or> has_keyword)
              srcs)
      in if real relevant_source_count < real (length srcs) / 2
            \<and> (0 < length answer_entities \<or> 0 < length answer_keywords)
         then (let answer_based_sources =
                     search_sources_from_answer e db lightrag_answer query current_user 5
               in if 0 < length answer_based_sources then answer_based_sources else srcs)
         else srcs)"

definition combine_sources ::
  "env \<Rightarrow> database \<Rightarrow> User \<Rightarrow> string \<Rightarrow> string \<Rightarrow> MessageSource list \<Rightarrow> MessageSource list
     \<Rightarrow> MessageSource list" where
  \<comment> \<open>lines 168 to 238: merge, fallback search, or validation\<close>
  "combine_sources e db current_user lightrag_answer query answer_based_sources srcs =
     (if 0 < length answer_based_sources then merge_sources answer_based_sources srcs
      else if length srcs = 0 then search_videos_by_query e db query current_user 5
      else validate_sources e db current_user lightrag_answer query srcs)"

definition chat_pipeline ::
  "env \<Rightarrow> database \<Rightarrow> User \<Rightarrow> string \<Rightarrow> string \<Rightarrow> (string \<times> string) list
     \<Rightarrow> exn + (string \<times> MessageSource list)" where
  \<comment> \<open>the body of the \<open>try\<close> up to the final answer and source list; \<open>Inl\<close> is an
      exception that reaches the \<open>except\<close> of \<open>send_message\<close>\<close>
  "chat_pipeline e db current_user organization_id query history =
     (case get_lightrag_service e of
        Inl ex \<Rightarrow> Inl ex
      | Inr lightrag_service \<Rightarrow>
     (case search_async e (organization_id, query, ''naive'', 10, None, True, None) of
        Inl ex \<Rightarrow> Inl ex
      | Inr lightrag_context_vectors \<Rightarrow>
     (case search_async e (organization_id, query, ''mix'', 10, Some history, True, None) of
        Inl ex \<Rightarrow> Inl ex
      | Inr lightrag_context_mix \<Rightarrow>
     (let combined_context = lightrag_context_vectors @ [CHR 0x0A, CHR 0x0A] @ lightrag_context_mix;
          parsed = parse_sources_from_lightrag e db combined_context query current_user
      in
     (case search_async e (organization_id, query, ''mix'', 5, Some history, False,
                           Some custom_prompt) of
        Inl ex \<Rightarrow> Inl ex
      | Inr lightrag_answer \<Rightarrow>
          let answer_based_sources =
                search_sources_from_answer e db lightrag_answer query current_user 5;
              combined =
                combine_sources e db current_user lightrag_answer query answer_based_sources parsed;
              relevant = filter_relevant_sources combined lightrag_answer query;
              enriched =
                (if relevant \<noteq> [] then add_context_to_sources e db relevant current_user 2
                 else relevant);
              final_answer =
                (if enriched \<noteq> []
                 then post_process_answer_with_context (gpt_4o_mini_complete e) lightrag_answer
                        enriched query
                 else lightrag_answer)
          in Inr (final_answer, enriched))))))"

definition exn_text :: "exn \<Rightarrow> string" where
  "exn_text ex = (case ex of Exception msg \<Rightarrow> msg)"

definition send_message ::
  "env \<Rightarrow> database \<Rightarrow> ChatRequest \<Rightarrow> User \<Rightarrow> database \<times> (http_error + ChatResponse)" where
  "send_message e db chat_request current_user =
     (case u_organization_id current_user of
        None \<Rightarrow> (db, Inl (HTTPException 400 ''User must belong to an organization''))
      | Some organization_id \<Rightarrow>
          (case (case conversation_id chat_request of
                   Some cid \<Rightarrow>
                     (case get_conversation db cid current_user of
                        None \<Rightarrow> None
                      | Some conversation \<Rightarrow> Some (db, conversation))
                 | None \<Rightarrow>
                     Some (create_conversation e db current_user
                             (if 50 < length (message chat_request)
                              then take 50 (message chat_request) @ ''...''
                              else message chat_request))) of
             None \<Rightarrow> (db, Inl (HTTPException 404 ''Conversation not found''))
           | Some (db1, conversation) \<Rightarrow>
               (case add_message db1 conversation ''user'' (message chat_request) None of
                  (db2, user_message) \<Rightarrow>
                    let history =
                          butlast (get_conversation_history_for_lightrag db2 (c_id conversation)
                                     current_user 10)
                    in (case chat_pipeline e db2 current_user organization_id
                               (message chat_request) history of
                          Inl ex \<Rightarrow>
                            (db2, Inl (HTTPException 500 (''Chat failed: '' @ exn_text ex)))
                        | Inr (final_answer, final_sources) \<Rightarrow>
                            (case add_message db2 conversation ''assistant'' final_answer
                                    (Some final_sources) of
                               (db3, assistant_message) \<Rightarrow>
                                 (db3, Inr \<lparr>response_conversation_id = c_id conversation,
                                            response_message = assistant_message,
                                            answer = final_answer,
                                            sources = final_sources\<rparr>))))))"


section \<open>Notions of the specification\<close>

text \<open>
  The specification speaks of the key \<open>(video id, floor(timestamp))\<close> of a source and of
  a list deduplicated by a key, keeping first occurrences. Both are written here from its
  words, to be compared with what the code computes.
\<close>

definition code_key :: "MessageSource \<Rightarrow> string \<times> int" where
  \<comment> \<open>the key \<open>(source.video_id, int(source.timestamp))\<close> that the merge computes\<close>
  "code_key s = (video_id s, py_int (timestamp s))"

definition floor_key :: "MessageSource \<Rightarrow> string \<times> int" where
  "floor_key s = (video_id s, \<lfloor>timestamp s\<rfloor>)"

function first_occurrences :: "('a \<Rightarrow> 'k) \<Rightarrow> 'a list \<Rightarrow> 'a list" where
  "first_occurrences key [] = []"
| "first_occurrences key (x # xs) = x # first_occurrences key (filter (\<lambda>y. key y \<noteq> key x) xs)"
  by pat_completeness auto
termination
  by (relation "measure (\<lambda>(key, xs). length xs)") (auto simp: less_Suc_eq_le)

text \<open>
  The key of a header as the loop computes it before the duplicate check: the stripped
  identifier and the start read by \<open>float\<close>, when both checks pass.
\<close>

definition header_key :: "string \<times> string \<times> string \<times> string \<Rightarrow> (string \<times> pyfloat) option" where
  "header_key m =
     (case m of (video_id_raw, start_str, end_str, segment_id_str) \<Rightarrow>
        if re_match_uuid (strip video_id_raw)
        then map_option (\<lambda>start_time. (strip video_id_raw, start_time)) (py_float start_str)
        else None)"


definition accessible :: "env \<Rightarrow> database \<Rightarrow> User \<Rightarrow> MessageSource \<Rightarrow> bool" where
  \<comment> \<open>the source names a video of the database that the access check lets the user see\<close>
  "accessible e db user source =
     list_ex (\<lambda>video. v_id video = video_id source \<and> can_access_video e db user video = Inr True)
       (videos db)"

definition built_from :: "env \<Rightarrow> database \<Rightarrow> User \<Rightarrow> MessageSource \<Rightarrow> bool" where
  \<comment> \<open>the source was built from a segment of the database and from a video of the
      database that the access check lets the user see\<close>
  "built_from e db user source =
     list_ex (\<lambda>video. can_access_video e db user video = Inr True
                \<and> list_ex (\<lambda>segment. source = make_source video segment) (video_segments db))
       (videos db)"

definition turn_conversation_id :: "env \<Rightarrow> ChatRequest \<Rightarrow> string" where
  \<comment> \<open>the conversation of a turn: the one asked for, or the new one\<close>
  "turn_conversation_id e chat_request =
     (case conversation_id chat_request of Some cid \<Rightarrow> cid | None \<Rightarrow> new_conversation_id e)"

definition user_row :: "env \<Rightarrow> ChatRequest \<Rightarrow> Message" where
  "user_row e chat_request =
     \<lparr>m_conversation_id = turn_conversation_id e chat_request, m_role = ''user'',
      m_content = message chat_request, m_sources = None\<rparr>"

definition assistant_row :: "env \<Rightarrow> ChatRequest \<Rightarrow> ChatResponse \<Rightarrow> Message" where
  "assistant_row e chat_request response =
     \<lparr>m_conversation_id = turn_conversation_id e chat_request, m_role = ''assistant'',
      m_content = answer response, m_sources = Some (sources response)\<rparr>"

definition kept :: "env \<Rightarrow> database \<Rightarrow> nat \<Rightarrow> MessageSource \<Rightarrow> MessageSource \<Rightarrow> bool" where
  \<comment> \<open>what the context enricher may do to a source \<open>s\<close>: the result \<open>s'\<close> has its
      four other fields; it is \<open>s\<close> itself, or \<open>s\<close> with a context blob around the
      located segment as text; it is \<open>s\<close> itself when no segment is located, and when a
      lookup raises (the body of the \<open>try\<close> ends in \<open>Inl\<close>)\<close>
  "kept e db n s s' =
     (video_id s' = video_id s \<and> video_title s' = video_title s
      \<and> timestamp s' = timestamp s \<and> url s' = url s
      \<and> (s' = s \<or> (\<exists>prev seg nxt. locate_segment e db s = Inr (Some seg)
                          \<and> source_text s' = context_blob prev seg nxt))
      \<and> (locate_segment e db s = Inr None \<longrightarrow> s' = s)
      \<and> (isl (add_context_to_source e db n s) \<longrightarrow> s' = s))"

definition accepted :: "database \<Rightarrow> ChatRequest \<Rightarrow> User \<Rightarrow> bool" where
  \<comment> \<open>the request passes the two checks that precede the turn: the user has an
      organization (else 400) and the conversation asked for is found (else 404)\<close>
  "accepted db chat_request user =
     (u_organization_id user \<noteq> None
      \<and> (case conversation_id chat_request of
             None \<Rightarrow> True
           | Some cid \<Rightarrow> get_conversation db cid user \<noteq> None))"

section \<open>A small installation\<close>

text \<open>One organization, three videos, a user and an administrator, used to run the model.\<close>

definition video_a :: string where "video_a = ''123e4567-e89b-12d3-a456-426614174000''"
definition video_b :: string where "video_b = ''00000000-0000-4000-8000-00000000000b''"
definition video_c :: string where "video_c = ''00000000-0000-4000-8000-00000000000c''"

definition demo_db :: database where
  "demo_db =
     \<lparr>videos =
        [\<lparr>v_id = video_a, v_title = ''Staff'', v_organization_id = ''org1'',
          v_security_level = INTERNAL\<rparr>,
         \<lparr>v_id = video_b, v_title = ''Board'', v_organization_id = ''org1'',
          v_security_level = SECRET\<rparr>,
         \<lparr>v_id = video_c, v_title = ''Other'', v_organization_id = ''org2'',
          v_security_level = PUBLIC\<rparr>],
      video_segments =
        [\<lparr>s_video_id = video_a, s_segment_id = 0, s_start_time = 0, s_text = ''Welcome''\<rparr>,
         \<lparr>s_video_id = video_a, s_segment_id = 1, s_start_time = 5 / 2,
          s_text = ''John Smith, senior engineer at Acme Corp''\<rparr>,
         \<lparr>s_video_id = video_a, s_segment_id = 2, s_start_time = 7, s_text = ''Thanks''\<rparr>,
         \<lparr>s_video_id = video_b, s_segment_id = 0, s_start_time = 1,
          s_text = ''John Smith will leave Acme Corp''\<rparr>,
         \<lparr>s_video_id = video_c, s_segment_id = 0, s_start_time = 3,
          s_text = ''John Smith visits''\<rparr>],
      video_access_permissions = [],
      conversations = [],
      messages = []\<rparr>"

definition demo_user :: User where
  "demo_user = \<lparr>u_id = ''user1'', u_role = USER, u_organization_id = Some ''org1''\<rparr>"

definition demo_ilike :: "string \<Rightarrow> string \<Rightarrow> bool" where
  \<comment> \<open>\<open>ILIKE\<close> for a pattern \<open>%term%\<close> whose term has no wildcard\<close>
  "demo_ilike t pat = contains (lower t) (lower (butlast (tl pat)))"

definition demo_header :: string where
  "demo_header = ''[video_id='' @ video_a @ '';start=2.5;end=6.9;segment_id=1]''"

definition demo_env :: env where
  "demo_env =
     \<lparr>db_raises = (\<lambda>q. False),
      ilike = demo_ilike,
      set_order = (\<lambda>xs. xs),
      new_conversation_id = ''conv1'',
      get_lightrag_service = Inr (),
      search_async =
        (\<lambda>(organization_id, query, mode, top_k, history, only_need_context, user_prompt).
           if only_need_context then Inr (demo_header @ '' John Smith, senior engineer'')
           else Inr ''John Smith works at Acme Corp''),
      gpt_4o_mini_complete = (\<lambda>request. Inl (Exception ''timeout''))\<rparr>"

definition demo_request :: ChatRequest where
  "demo_request = \<lparr>message = ''Who is John Smith?'', conversation_id = None\<rparr>"

definition src_a :: MessageSource where
  "src_a = \<lparr>video_id = video_a, video_title = ''Staff'', timestamp = 5 / 2,
            source_text = ''John Smith, senior engineer at Acme Corp'',
            url = ''/videos/'' @ video_a @ ''?t=2''\<rparr>"

definition src_b :: MessageSource where
  "src_b = \<lparr>video_id = video_a, video_title = ''Staff'', timestamp = 7,
            source_text = ''Thanks'', url = ''/videos/'' @ video_a @ ''?t=7''\<rparr>"

definition inf_context :: string where
  "inf_context =
     ''[video_id='' @ video_a @ '';start=inf;end=6.9;segment_id=1] John Smith, senior engineer''"


definition misaligned_context :: string where
  "misaligned_context =
     ''[video_id=draft] budget notes '' @ demo_header @ '' John Smith, senior engineer''"

definition demo_context :: string where
  "demo_context = demo_header @ '' John Smith, senior engineer''"

definition demo_enriched :: MessageSource where
  "demo_enriched = src_a\<lparr>source_text :=
     ''... Welcome [MAIN SEGMENT: John Smith, senior engineer at Acme Corp] Thanks ...''\<rparr>"

definition demo_user_row :: Message where
  "demo_user_row = \<lparr>m_conversation_id = ''conv1'', m_role = ''user'',
                     m_content = ''Who is John Smith?'', m_sources = None\<rparr>"

definition demo_assistant_row :: Message where
  "demo_assistant_row = \<lparr>m_conversation_id = ''conv1'', m_role = ''assistant'',
                          m_content = ''John Smith works at Acme Corp'',
                          m_sources = Some [demo_enriched]\<rparr>"

definition demo_response :: ChatResponse where
  "demo_response = \<lparr>response_conversation_id = ''conv1'',
                     response_message = demo_assistant_row,
                     answer = ''John Smith works at Acme Corp'',
                     sources = [demo_enriched]\<rparr>"

definition demo_db_after :: database where
  "demo_db_after = demo_db
     \<lparr>conversations := [\<lparr>c_id = ''conv1'', c_user_id = ''user1'',
                          c_organization_id = Some ''org1'', c_title = ''Who is John Smith?''\<rparr>],
      messages := [demo_user_row, demo_assistant_row]\<rparr>"

definition long_text :: string where
  "long_text = ''budget '' @ replicate 200 (CHR ''x'')"

definition long_db :: database where
  "long_db = demo_db\<lparr>video_segments :=
     [\<lparr>s_video_id = video_a, s_segment_id = 0, s_start_time = 4, s_text = long_text\<rparr>]\<rparr>"

definition src_long :: MessageSource where
  "src_long = \<lparr>video_id = video_a, video_title = ''Staff'', timestamp = 4,
               source_text = ''budget '' @ replicate 193 (CHR ''x'') @ ''...'',
               url = ''/videos/'' @ video_a @ ''?t=4''\<rparr>"

definition failing_env :: env where
  "failing_env = demo_env\<lparr>db_raises := (\<lambda>q. True)\<rparr>"


section \<open>Numbers read from text\<close>

lemma double_limit_power: "double_limit = 2 ^ 1024 - 2 ^ 970"
  by (simp add: double_limit_def)

section \<open>The relevance filter on a greeting\<close>

lemma greeting_detected: "is_greeting_interaction ''Hei! Hvordan kan jeg hjelpe deg?'' ''hei''"
  by code_simp

text \<open>
  Claim C8. For the query \<open>hei\<close> and the answer \<open>Hei! Hvordan kan jeg hjelpe deg?\<close> the
  relevance filter returns the empty source list, whatever the candidate sources are.
\<close>

theorem greeting_suppressed:
  "filter_relevant_sources srcs ''Hei! Hvordan kan jeg hjelpe deg?'' ''hei'' = []"
  using greeting_detected by (simp add: filter_relevant_sources_def)

section \<open>The corrector when the language model fails\<close>

text \<open>
  Claim C4. If the call of the language model raises, the post-processing step returns
  the answer it was given, unchanged. Its result is a string: the step has no way to
  fail the turn.
\<close>

theorem correction_failure_keeps_answer:
  assumes "gpt (query, take 3 srcs, ans) = Inl ex"
  shows "post_process_answer_with_context gpt ans srcs query = ans"
  using assms by (simp add: post_process_answer_with_context_def)

theorem correction_failure_keeps_answer_witness:
  "gpt_4o_mini_complete demo_env (''q'', take 3 [src_a], ''Svar med feil'')
     = Inl (Exception ''timeout'')
   \<and> post_process_answer_with_context (gpt_4o_mini_complete demo_env) ''Svar med feil''
       [src_a] ''q'' = ''Svar med feil''"
proof -
  have h: "gpt_4o_mini_complete demo_env (''q'', take 3 [src_a], ''Svar med feil'')
             = Inl (Exception ''timeout'')"
    by (simp add: demo_env_def)
  show ?thesis
    using h correction_failure_keeps_answer
      [of "gpt_4o_mini_complete demo_env" "''q''" "[src_a]" "''Svar med feil''"
          "Exception ''timeout''"]
    by simp
qed

section \<open>The merge of answer-based and header-based sources\<close>

lemma first_occurrences_cong:
  "(\<And>x. x \<in> set xs \<Longrightarrow> f x = g x) \<Longrightarrow> first_occurrences f xs = first_occurrences g xs"
proof (induction f xs rule: first_occurrences.induct)
  case (1 key)
  then show ?case by simp
next
  case (2 key x xs)
  have "filter (\<lambda>y. key y \<noteq> key x) xs = filter (\<lambda>y. g y \<noteq> g x) xs"
    using 2(2) by (auto intro: filter_cong)
  moreover have "first_occurrences key (filter (\<lambda>y. key y \<noteq> key x) xs)
      = first_occurrences g (filter (\<lambda>y. key y \<noteq> key x) xs)"
    using 2(2) by (intro 2(1)) auto
  ultimately show ?case by simp
qed

lemma first_occurrences_distinct:
  "distinct (map key xs) \<Longrightarrow> first_occurrences key xs = xs"
proof (induction xs)
  case Nil
  then show ?case by simp
next
  case (Cons x xs)
  from Cons.prems have "\<And>y. y \<in> set xs \<Longrightarrow> key y \<noteq> key x"
    by (metis distinct.simps(2) image_eqI list.simps(9) set_map)
  then have "filter (\<lambda>y. key y \<noteq> key x) xs = xs"
    by (simp add: filter_id_conv)
  with Cons show ?case by simp
qed

lemma add_unseen_eq:
  "add_unseen xs seen acc =
     (seen \<union> code_key ` set xs,
      acc @ first_occurrences code_key (filter (\<lambda>x. code_key x \<notin> seen) xs))"
proof (induction xs arbitrary: seen acc)
  case Nil
  then show ?case by simp
next
  case (Cons x xs)
  have f: "filter (\<lambda>y. code_key y \<notin> insert (code_key x) seen) xs
         = filter (\<lambda>y. code_key y \<noteq> code_key x) (filter (\<lambda>x. code_key x \<notin> seen) xs)"
    by (auto intro: filter_cong)
  show ?case
  proof (cases "code_key x \<in> seen")
    case True
    then show ?thesis using Cons[of seen acc] by (auto simp: Let_def code_key_def)
  next
    case False
    then show ?thesis
      using Cons[of "insert (code_key x) seen" "acc @ [x]"] f
      by (simp add: Let_def code_key_def[symmetric] del: insert_iff)
  qed
qed

lemma merge_sources_eq:
  "merge_sources a h =
     first_occurrences code_key a
     @ first_occurrences code_key (filter (\<lambda>x. code_key x \<notin> code_key ` set a) h)"
  by (simp add: merge_sources_def add_unseen_eq)

lemma py_int_floor: "0 \<le> x \<Longrightarrow> py_int x = \<lfloor>x\<rfloor>"
  by (simp add: py_int_def)

text \<open>
  Claim C2. When the answer-based list is not empty, the timestamps are times into a
  video (not negative, where \<open>int\<close> is the floor) and no key \<open>(video id, floor(timestamp))\<close>
  occurs in both lists, the merge is the answer-based sources in their order, deduplicated
  by that key, followed by the header-based sources in their order, deduplicated by that
  key. Nothing is cut off: when the keys within each list are distinct too, the merge is
  the one list followed by the other.
\<close>

theorem merge_answer_first:
  assumes nonempty: "answer_based \<noteq> []"
    and times: "\<forall>s \<in> set (answer_based @ parsed). 0 \<le> timestamp s"
    and apart: "floor_key ` set answer_based \<inter> floor_key ` set parsed = {}"
  shows "combine_sources e db user ans query answer_based parsed
           = first_occurrences floor_key answer_based @ first_occurrences floor_key parsed
         \<and> (distinct (map floor_key answer_based) \<and> distinct (map floor_key parsed)
              \<longrightarrow> combine_sources e db user ans query answer_based parsed = answer_based @ parsed)"
proof -
  have keys: "\<And>s. s \<in> set (answer_based @ parsed) \<Longrightarrow> code_key s = floor_key s"
    using times by (simp add: code_key_def floor_key_def py_int_floor)
  have "filter (\<lambda>x. code_key x \<notin> code_key ` set answer_based) parsed = parsed"
  proof -
    have "\<And>x. x \<in> set parsed \<Longrightarrow> code_key x \<notin> code_key ` set answer_based"
    proof
      fix x assume x: "x \<in> set parsed" and "code_key x \<in> code_key ` set answer_based"
      then obtain y where y: "y \<in> set answer_based" "code_key x = code_key y" by auto
      then have "floor_key x = floor_key y" using keys x by auto
      then show False using apart x y by auto
    qed
    then show ?thesis by (simp add: filter_id_conv)
  qed
  then have "merge_sources answer_based parsed
      = first_occurrences code_key answer_based @ first_occurrences code_key parsed"
    by (simp add: merge_sources_eq)
  moreover have "first_occurrences code_key answer_based = first_occurrences floor_key answer_based"
    using keys by (intro first_occurrences_cong) auto
  moreover have "first_occurrences code_key parsed = first_occurrences floor_key parsed"
    using keys by (intro first_occurrences_cong) auto
  ultimately have main: "combine_sources e db user ans query answer_based parsed
      = first_occurrences floor_key answer_based @ first_occurrences floor_key parsed"
    using nonempty by (simp add: combine_sources_def)
  then show ?thesis by (simp add: first_occurrences_distinct)
qed

theorem merge_answer_first_witness:
  "[src_a] \<noteq> []
   \<and> 0 \<le> timestamp src_a \<and> 0 \<le> timestamp src_b
   \<and> floor_key ` set [src_a] \<inter> floor_key ` set [src_b, src_b] = {}
   \<and> combine_sources demo_env demo_db demo_user ''John Smith'' ''Who?'' [src_a] [src_b, src_b]
       = [src_a, src_b]"
proof -
  have h1: "[src_a] \<noteq> []" by simp
  have h2: "\<forall>s \<in> set ([src_a] @ [src_b, src_b]). 0 \<le> timestamp s"
    by (simp add: src_a_def src_b_def)
  have h3: "floor_key ` set [src_a] \<inter> floor_key ` set [src_b, src_b] = {}"
    by (simp add: src_a_def src_b_def floor_key_def)
  have h4: "0 \<le> timestamp src_a \<and> 0 \<le> timestamp src_b"
    by (simp add: src_a_def src_b_def)
  show ?thesis
    using h1 h2 h3 h4 merge_answer_first
      [of "[src_a]" "[src_b, src_b]" demo_env demo_db demo_user "''John Smith''" "''Who?''"]
    by simp
qed

section \<open>The header stage of \<open>_parse_sources_from_lightrag\<close>\<close>

text \<open>
  The loop of the function is the second half of its body run over the headers that the
  first half retains: the duplicate check never reads the sources found so far.
\<close>

lemma parse_loop_retained:
  "parse_loop e db u qk pairs idx ms seen acc
     = resolve_retained e db u qk pairs (retained_headers idx ms seen) acc"
  by (induction ms arbitrary: idx seen acc)
     (auto simp: Let_def split: option.splits sum.splits prod.splits)

lemma parse_sources_staged:
  "parse_sources_from_lightrag e db ctx q u
     = resolve_retained e db u (query_keywords_of q) (header_text_pairs ctx) (header_tuples ctx) []"
  by (simp add: parse_sources_from_lightrag_def header_tuples_def parse_loop_retained)

lemma retained_headers_Cons:
  "retained_headers idx ((raw, s, en, sg) # rest) seen =
     (case header_key (raw, s, en, sg) of
        None \<Rightarrow> retained_headers (Suc idx) rest seen
      | Some k \<Rightarrow>
          if key_seen k seen then retained_headers (Suc idx) rest seen
          else (idx, fst k, snd k, en, sg) # retained_headers (Suc idx) rest (k # seen))"
  by (auto simp: header_key_def Let_def split: option.splits)

lemma retained_from_match:
  "(i, v, st, en, sg) \<in> set (retained_headers idx ms seen)
     \<Longrightarrow> \<exists>raw s. (raw, s, en, sg) \<in> set ms \<and> header_key (raw, s, en, sg) = Some (v, st)"
proof (induction ms arbitrary: idx seen)
  case Nil
  then show ?case by simp
next
  case (Cons m ms)
  obtain raw s en' sg' where m: "m = (raw, s, en', sg')" by (cases m) auto
  note step = retained_headers_Cons[of idx raw s en' sg' ms seen]
  show ?case
  proof (cases "header_key (raw, s, en', sg')")
    case None
    with Cons.prems have "(i, v, st, en, sg) \<in> set (retained_headers (Suc idx) ms seen)"
      unfolding m step by simp
    from Cons.IH[OF this] show ?thesis by auto
  next
    case (Some k)
    show ?thesis
    proof (cases "key_seen k seen")
      case True
      with Some Cons.prems have "(i, v, st, en, sg) \<in> set (retained_headers (Suc idx) ms seen)"
        unfolding m step by simp
      from Cons.IH[OF this] show ?thesis by auto
    next
      case False
      with Some Cons.prems have
        "(i, v, st, en, sg) = (idx, fst k, snd k, en', sg')
         \<or> (i, v, st, en, sg) \<in> set (retained_headers (Suc idx) ms (k # seen))"
        unfolding m step by simp
      then show ?thesis
      proof
        assume "(i, v, st, en, sg) = (idx, fst k, snd k, en', sg')"
        then have "header_key (raw, s, en, sg) = Some (v, st)" "(raw, s, en, sg) \<in> set (m # ms)"
          using Some m by auto
        then show ?thesis by blast
      next
        assume "(i, v, st, en, sg) \<in> set (retained_headers (Suc idx) ms (k # seen))"
        from Cons.IH[OF this] show ?thesis by auto
      qed
    qed
  qed
qed

lemma strip_last_not_space: "strip s \<noteq> [] \<Longrightarrow> \<not> py_isspace (last (strip s))"
proof -
  assume ne: "strip s \<noteq> []"
  define ys where "ys = dropWhile py_isspace (rev (dropWhile py_isspace s))"
  have s: "strip s = rev ys" by (simp add: strip_def ys_def)
  with ne have "ys \<noteq> []" by simp
  then have "\<not> py_isspace (hd ys)" unfolding ys_def by (rule hd_dropWhile)
  moreover have "last (strip s) = hd ys" using s \<open>ys \<noteq> []\<close> by (simp add: last_rev)
  ultimately show ?thesis by simp
qed

lemma newline_is_space: "py_isspace (CHR 0x0A)"
  by code_simp

lemma re_match_uuid_strip: "re_match_uuid (strip raw) \<Longrightarrow> is_uuid (strip raw)"
  using strip_last_not_space[of raw] newline_is_space
  by (auto simp: re_match_uuid_def)

lemma header_key_checked:
  "header_key (raw, s, en, sg) = Some (v, st)
     \<Longrightarrow> v = strip raw \<and> is_uuid v \<and> py_float s = Some st"
  by (auto simp: header_key_def re_match_uuid_strip split: if_splits)

lemma resolve_retained_sources:
  "src \<in> set (resolve_retained e db u qk pairs ts acc)
     \<Longrightarrow> src \<in> set acc
         \<or> (\<exists>(i, v, st, en, sg) \<in> set ts. resolve_header e db u qk pairs i v st sg = Inr (Some src))"
proof (induction ts arbitrary: acc)
  case Nil
  then show ?case by simp
next
  case (Cons t ts)
  obtain i v st en sg where t: "t = (i, v, st, en, sg)" by (cases t) auto
  show ?case
  proof (cases "resolve_header e db u qk pairs i v st sg")
    case (Inl ex)
    with Cons.prems have "src \<in> set (resolve_retained e db u qk pairs ts acc)"
      unfolding t by simp
    from Cons.IH[OF this] show ?thesis by auto
  next
    case (Inr found)
    show ?thesis
    proof (cases found)
      case None
      with Inr Cons.prems have "src \<in> set (resolve_retained e db u qk pairs ts acc)"
        unfolding t by simp
      from Cons.IH[OF this] show ?thesis by auto
    next
      case (Some source)
      with Inr Cons.prems have
        "src \<in> set (acc @ [source])
         \<or> src \<in> set (resolve_retained e db u qk pairs ts (acc @ [source]))"
        unfolding t by (auto split: if_splits)
      then have "src \<in> set acc \<or> src = source
          \<or> (\<exists>(i, v, st, en, sg) \<in> set ts.
                 resolve_header e db u qk pairs i v st sg = Inr (Some src))"
        using Cons.IH[of "acc @ [source]"] by auto
      then show ?thesis using Inr Some unfolding t by auto
    qed
  qed
qed

text \<open>
  Claim C5, as the code has it. A tuple is retained only for a match whose identifier has
  the shape 8-4-4-4-12 of hexadecimal digits, in any case, and whose start field \<open>float\<close>
  accepts; every source of the function comes from a retained tuple. The function returns
  a list: no header makes it raise. What \<open>float\<close> accepts includes \<open>inf\<close>,
  \<open>infinity\<close> and \<open>nan\<close>: a header with such a start is retained, and the
  segment is then looked up by its ordinal.
\<close>

theorem header_tuple_checked:
  "(\<forall>(i, v, st, en, sg) \<in> set (header_tuples ctx).
      is_uuid v
      \<and> (\<exists>raw s. (raw, s, en, sg) \<in> set (findall_headers ctx) \<and> v = strip raw
                   \<and> py_float s = Some st))
   \<and> (\<forall>src \<in> set (parse_sources_from_lightrag e db ctx q u).
        \<exists>(i, v, st, en, sg) \<in> set (header_tuples ctx).
          resolve_header e db u (query_keywords_of q) (header_text_pairs ctx) i v st sg
            = Inr (Some src))"
proof (intro conjI ballI)
  fix t assume t: "t \<in> set (header_tuples ctx)"
  obtain i v st en sg where tt: "t = (i, v, st, en, sg)" by (cases t) auto
  from t obtain raw s where "(raw, s, en, sg) \<in> set (findall_headers ctx)"
      "header_key (raw, s, en, sg) = Some (v, st)"
    unfolding tt header_tuples_def by (blast dest: retained_from_match)
  then show "case t of (i, v, st, en, sg) \<Rightarrow>
      is_uuid v
      \<and> (\<exists>raw s. (raw, s, en, sg) \<in> set (findall_headers ctx) \<and> v = strip raw
                   \<and> py_float s = Some st)"
    unfolding tt using header_key_checked by fastforce
next
  fix src assume "src \<in> set (parse_sources_from_lightrag e db ctx q u)"
  then show "\<exists>(i, v, st, en, sg) \<in> set (header_tuples ctx).
          resolve_header e db u (query_keywords_of q) (header_text_pairs ctx) i v st sg
            = Inr (Some src)"
    unfolding parse_sources_staged by (auto dest: resolve_retained_sources)
qed

lemma demo_context_tuples:
  "header_tuples demo_context = [(0, video_a, Finite (5 / 2), ''6.9'', ''1'')]"
  by code_simp

theorem header_tuple_checked_witness:
  "header_tuples demo_context = [(0, video_a, Finite (5 / 2), ''6.9'', ''1'')]
   \<and> is_uuid video_a
   \<and> (\<exists>raw s. (raw, s, ''6.9'', ''1'') \<in> set (findall_headers demo_context)
          \<and> video_a = strip raw \<and> py_float s = Some (Finite (5 / 2)))"
  using header_tuple_checked [of demo_context demo_env demo_db "''John Smith''" demo_user]
    demo_context_tuples
  by simp

text \<open>
  The start \<open>inf\<close> is not a finite number; the header is retained and yields a source.
\<close>

theorem nonfinite_start_retained:
  "header_tuples inf_context = [(0, video_a, PosInf, ''6.9'', ''1'')]
   \<and> parse_sources_from_lightrag demo_env demo_db inf_context ''John Smith'' demo_user = [src_a]"
  by code_simp










text \<open>
  Claim C7 at a context where it fails. The text paired with a header is taken from the
  split of the context at every bracket \<open>[video_id=...]\<close>, and is looked up by the
  index of the header among the matches of the strict pattern. Here a bracket that is not
  a header comes first: the retained header has index 0 and is paired with the text after
  that bracket, not with the text after itself. The query word \<open>budget\<close> stands only
  in the text after the bracket; the source passes the relevance check with it, and does
  not pass without the bracket.
\<close>

theorem context_text_of_other_header:
  "re_split misaligned_context
     = [[], ''[video_id=draft]'', '' budget notes '', demo_header,
        '' John Smith, senior engineer'']
   \<and> header_tuples misaligned_context = [(0, video_a, Finite (5 / 2), ''6.9'', ''1'')]
   \<and> local_context_text (header_text_pairs misaligned_context) 0 = '' budget notes ''
   \<and> parse_sources_from_lightrag demo_env demo_db misaligned_context ''budget'' demo_user
       = [src_a]
   \<and> parse_sources_from_lightrag demo_env demo_db demo_context ''budget'' demo_user = []"
  by code_simp

section \<open>What the three searches build\<close>

text \<open>
  Every source that the header resolution, the answer-based search and the fallback search
  return was built by \<open>make_source\<close> from a segment of the database and from a video
  for which \<open>can_access_video\<close> returned \<open>True\<close>.
\<close>

lemma find_SomeD: "find P xs = Some x \<Longrightarrow> x \<in> set xs \<and> P x"
  by (induction xs) (auto split: if_splits)

lemma run_query_Inr: "run_query e q r = Inr x \<Longrightarrow> x = r"
  by (simp add: run_query_def split: if_splits)

lemma run_query_Inr_sym: "Inr x = run_query e q r \<Longrightarrow> x = r"
  by (simp add: run_query_def split: if_splits)

lemma find_SomeD_sym: "Some x = find P xs \<Longrightarrow> x \<in> set xs \<and> P x"
  using find_SomeD[of P xs x] by simp

lemma find_segment_in:
  assumes "find_segment e db v st sg = Inr (Some seg)"
  shows "seg \<in> set (video_segments db)"
proof -
  have "\<exists>P. find P (video_segments db) = Some seg"
    using assms
    by (auto simp: find_segment_def split: sum.splits if_splits option.splits
             dest!: run_query_Inr)
  then show ?thesis by (auto dest: find_SomeD)
qed

lemma built_fromI:
  "video \<in> set (videos db) \<Longrightarrow> segment \<in> set (video_segments db)
     \<Longrightarrow> can_access_video e db user video = Inr True
     \<Longrightarrow> built_from e db user (make_source video segment)"
  by (auto simp: built_from_def list_ex_iff)

lemma resolve_header_built:
  assumes "resolve_header e db u qk pairs i v st sg = Inr (Some src)"
  shows "built_from e db u src"
proof -
  have "\<exists>video segment P. find P (videos db) = Some video
          \<and> can_access_video e db u video = Inr True
          \<and> find_segment e db v st sg = Inr (Some segment)
          \<and> src = make_source video segment"
    using assms
    by (auto simp: resolve_header_def split: sum.splits option.splits bool.splits if_splits
             dest!: run_query_Inr) metis
  then obtain video segment P where
      v: "find P (videos db) = Some video"
    and a: "can_access_video e db u video = Inr True"
    and s: "find_segment e db v st sg = Inr (Some segment)"
    and src: "src = make_source video segment"
    by blast
  from v have "video \<in> set (videos db)" by (auto dest: find_SomeD)
  moreover from s have "segment \<in> set (video_segments db)" by (rule find_segment_in)
  ultimately show ?thesis using a src by (simp add: built_fromI)
qed


lemma segment_video_in: "segment_video e db seg = Inr video \<Longrightarrow> video \<in> set (videos db)"
  by (auto simp: segment_video_def split: sum.splits option.splits
           dest!: run_query_Inr run_query_Inr_sym dest: find_SomeD find_SomeD_sym)

lemma answer_loop_built:
  assumes "\<forall>p \<in> set scored. snd p \<in> set (video_segments db)"
    and "src \<in> set (answer_loop e db u cap scored seen acc)"
  shows "src \<in> set acc \<or> built_from e db u src"
  using assms
proof (induction scored arbitrary: seen acc)
  case Nil
  then show ?case by simp
next
  case (Cons p scored)
  obtain score segment where p: "p = (score, segment)" by (cases p) auto
  define key where "key = (s_video_id segment, py_int (s_start_time segment))"
  have rest: "\<forall>p \<in> set scored. snd p \<in> set (video_segments db)"
    and seg: "segment \<in> set (video_segments db)"
    using Cons.prems(1) p by auto
  note IH = Cons.IH[OF rest]
  show ?case
  proof (cases "key \<in> seen")
    case True
    with Cons.prems(2) have "src \<in> set (answer_loop e db u cap scored seen acc)"
      unfolding p key_def by (simp add: Let_def)
    from IH[OF this] show ?thesis .
  next
    case False
    show ?thesis
    proof (cases "segment_video e db segment")
      case (Inl ex)
      with False Cons.prems(2) show ?thesis unfolding p key_def by (simp add: Let_def)
    next
      case (Inr video)
      then have vid: "video \<in> set (videos db)" by (rule segment_video_in)
      show ?thesis
      proof (cases "can_access_video e db u video")
        case (Inl ex)
        with False Inr Cons.prems(2) show ?thesis unfolding p key_def by (simp add: Let_def)
      next
        case access: (Inr ok)
        show ?thesis
        proof (cases ok)
          case True
          then have b: "built_from e db u (make_source video segment)"
            using vid seg access by (simp add: built_fromI)
          from False Inr access True Cons.prems(2) have
            "src \<in> set (acc @ [make_source video segment])
             \<or> src \<in> set (answer_loop e db u cap scored (insert key seen)
                              (acc @ [make_source video segment]))"
            unfolding p key_def by (auto simp: Let_def split: if_splits)
          then show ?thesis using IH[of "insert key seen" "acc @ [make_source video segment]"] b
            by auto
        next
          case no: False
          with False Inr access Cons.prems(2) have
            "src \<in> set (answer_loop e db u cap scored (insert key seen) acc)"
            unfolding p key_def by (simp add: Let_def)
          from IH[OF this] show ?thesis .
        qed
      qed
    qed
  qed
qed

lemma fallback_loop_built:
  assumes "set segments \<subseteq> set (video_segments db)"
    and "src \<in> set (fallback_loop e db u cap segments seen acc)"
  shows "src \<in> set acc \<or> built_from e db u src"
  using assms
proof (induction segments arbitrary: seen acc)
  case Nil
  then show ?case by simp
next
  case (Cons segment segments)
  have rest: "set segments \<subseteq> set (video_segments db)"
    and seg: "segment \<in> set (video_segments db)"
    using Cons.prems(1) by auto
  note IH = Cons.IH[OF rest]
  show ?case
  proof (cases "s_video_id segment \<in> seen")
    case True
    with Cons.prems(2) have "src \<in> set (fallback_loop e db u cap segments seen acc)"
      by simp
    from IH[OF this] show ?thesis .
  next
    case False
    show ?thesis
    proof (cases "segment_video e db segment")
      case (Inl ex)
      with False Cons.prems(2) show ?thesis by simp
    next
      case (Inr video)
      then have vid: "video \<in> set (videos db)" by (rule segment_video_in)
      show ?thesis
      proof (cases "can_access_video e db u video")
        case (Inl ex)
        with False Inr Cons.prems(2) show ?thesis by simp
      next
        case access: (Inr ok)
        show ?thesis
        proof (cases ok)
          case True
          then have b: "built_from e db u (make_source video segment)"
            using vid seg access by (simp add: built_fromI)
          from False Inr access True Cons.prems(2) have
            "src \<in> set (acc @ [make_source video segment])
             \<or> src \<in> set (fallback_loop e db u cap segments (insert (s_video_id segment) seen)
                              (acc @ [make_source video segment]))"
            by (auto split: if_splits)
          then show ?thesis
            using IH[of "insert (s_video_id segment) seen" "acc @ [make_source video segment]"] b
            by auto
        next
          case no: False
          with False Inr access Cons.prems(2) have
            "src \<in> set (fallback_loop e db u cap segments (insert (s_video_id segment) seen) acc)"
            by simp
          from IH[OF this] show ?thesis .
        qed
      qed
    qed
  qed
qed

lemma parse_sources_built:
  assumes "src \<in> set (parse_sources_from_lightrag e db ctx q u)"
  shows "built_from e db u src"
proof -
  from assms have "\<exists>(i, v, st, en, sg) \<in> set (header_tuples ctx).
      resolve_header e db u (query_keywords_of q) (header_text_pairs ctx) i v st sg = Inr (Some src)"
    unfolding parse_sources_staged by (auto dest: resolve_retained_sources)
  then show ?thesis by (auto dest: resolve_header_built)
qed

lemma answer_sources_built:
  assumes "src \<in> set (search_sources_from_answer e db a q u cap)"
  shows "built_from e db u src"
proof -
  define ents where "ents = list_of_set e (findall_entities a @ findall_entities q)"
  define kws where "kws = take 10 (list_of_set e (keywords_of search_stopwords a
                                                  @ keywords_of search_stopwords q))"
  define rows where "rows = take (cap * 5)
      (sort_key s_start_time
         (filter (\<lambda>s. in_organization db u s
              \<and> (list_ex (\<lambda>entity. ilike e (s_text s) (like_pattern entity)) (take 5 ents)
                 \<or> list_ex (\<lambda>keyword. ilike e (s_text s) (like_pattern keyword)) (take 5 kws)))
            (video_segments db)))"
  define scored where "scored = sort_key (\<lambda>(score, segment). - int score)
      (filter (\<lambda>(score, segment). 0 < score)
         (map (\<lambda>segment. (segment_score ents kws segment, segment)) rows))"
  have rows: "set rows \<subseteq> set (video_segments db)"
    unfolding rows_def by (auto dest: in_set_takeD)
  have scored: "\<forall>p \<in> set scored. snd p \<in> set (video_segments db)"
    unfolding scored_def using rows by auto
  from assms have "src \<in> set (answer_loop e db u cap scored {} [])"
    unfolding search_sources_from_answer_def Let_def
      ents_def[symmetric] kws_def[symmetric]
    by (auto simp: rows_def[symmetric] scored_def[symmetric] split: if_splits sum.splits
             dest!: run_query_Inr run_query_Inr_sym)
  from answer_loop_built[OF scored this] show ?thesis by simp
qed

lemma fallback_sources_built:
  assumes "src \<in> set (search_videos_by_query e db q u cap)"
  shows "built_from e db u src"
proof -
  define kws where "kws = map strip (filter (\<lambda>k. 2 < length k) (split (lower q)))"
  define rows where "rows = take (cap * 3)
      (filter (\<lambda>s. in_organization db u s
           \<and> list_ex (\<lambda>keyword. ilike e (s_text s) (like_pattern keyword)) (take 3 kws))
         (video_segments db))"
  have rows: "set rows \<subseteq> set (video_segments db)"
    unfolding rows_def by (auto dest: in_set_takeD)
  from assms have "src \<in> set (fallback_loop e db u cap rows {} [])"
    unfolding search_videos_by_query_def Let_def kws_def[symmetric]
    by (auto simp: rows_def[symmetric] split: if_splits sum.splits
             dest!: run_query_Inr run_query_Inr_sym)
  from fallback_loop_built[OF rows this] show ?thesis by simp
qed

section \<open>The excerpt of a source\<close>

lemma built_from_excerpt:
  assumes "built_from e db u src"
  shows "\<exists>segment \<in> set (video_segments db).
           timestamp src = s_start_time segment
           \<and> source_text src
               = (if 200 < length (s_text segment) then take 200 (s_text segment) @ ''...''
                  else s_text segment)"
  using assms by (auto simp: built_from_def list_ex_iff make_source_def excerpt_def)

text \<open>
  Claim C9. A source returned by any of the three searches was built from a segment of
  the database: its text is the first 200 characters of the segment's text followed by
  \<open>...\<close> when that text is longer than 200 characters, and the segment's text
  unchanged otherwise.
\<close>

theorem source_text_truncated:
  assumes "src \<in> set (parse_sources_from_lightrag e db ctx q u)
           \<or> src \<in> set (search_sources_from_answer e db a q u cap)
           \<or> src \<in> set (search_videos_by_query e db q u cap)"
  shows "\<exists>segment \<in> set (video_segments db).
           timestamp src = s_start_time segment
           \<and> source_text src
               = (if 200 < length (s_text segment) then take 200 (s_text segment) @ ''...''
                  else s_text segment)"
proof -
  from assms have "built_from e db u src"
    by (auto dest: parse_sources_built answer_sources_built fallback_sources_built)
  then show ?thesis by (rule built_from_excerpt)
qed

theorem source_text_truncated_witness:
  "(src_long \<in> set (parse_sources_from_lightrag demo_env long_db demo_context ''budget'' demo_user)
    \<or> src_long \<in> set (search_sources_from_answer demo_env long_db ''Budget'' ''budget'' demo_user 5)
    \<or> src_long \<in> set (search_videos_by_query demo_env long_db ''budget'' demo_user 5))
   \<and> (\<exists>segment \<in> set (video_segments long_db).
          timestamp src_long = s_start_time segment
          \<and> source_text src_long
              = (if 200 < length (s_text segment) then take 200 (s_text segment) @ ''...''
                 else s_text segment))"
proof -
  have "search_videos_by_query demo_env long_db ''budget'' demo_user 5 = [src_long]"
    by code_simp
  then have h: "src_long \<in> set (parse_sources_from_lightrag demo_env long_db demo_context ''budget'' demo_user)
    \<or> src_long \<in> set (search_sources_from_answer demo_env long_db ''Budget'' ''budget'' demo_user 5)
    \<or> src_long \<in> set (search_videos_by_query demo_env long_db ''budget'' demo_user 5)"
    by simp
  from source_text_truncated[OF h] h show ?thesis by blast
qed

section \<open>The context enricher\<close>

lemma add_context_to_source_fields:
  assumes "add_context_to_source e db n s = Inr s'"
  shows "video_id s' = video_id s \<and> video_title s' = video_title s
         \<and> timestamp s' = timestamp s \<and> url s' = url s
         \<and> ((locate_segment e db s = Inr None \<and> s' = s)
              \<or> (\<exists>prev seg nxt. locate_segment e db s = Inr (Some seg)
                    \<and> source_text s' = context_blob prev seg nxt))"
  using assms
  by (auto simp: add_context_to_source_def split: sum.splits option.splits) blast

text \<open>
  Claim C10. The enricher returns one source for each source it is given, in the same
  order, with the same video id, title, timestamp and url; the text alone may change, to
  the context blob; a source whose segment is not located, or for which a lookup raises,
  comes back as it was.
\<close>

theorem enricher_frame:
  "list_all2 (kept e db n) srcs (add_context_to_sources e db srcs u n)"
proof -
  have "kept e db n s (case add_context_to_source e db n s of Inl ex \<Rightarrow> s | Inr s' \<Rightarrow> s')" for s
  proof (cases "add_context_to_source e db n s")
    case (Inl ex)
    then show ?thesis by (simp add: kept_def)
  next
    case (Inr s')
    from add_context_to_source_fields[OF this] show ?thesis
      using Inr by (auto simp: kept_def)
  qed
  then show ?thesis
    by (simp add: add_context_to_sources_def list_all2_map2 list_all2_same)
qed

lemma demo_enrichment:
  "add_context_to_sources demo_env demo_db [src_a] demo_user 2 = [demo_enriched]"
  by code_simp

lemma failing_enrichment:
  "add_context_to_sources failing_env demo_db [src_a] demo_user 2 = [src_a]"
  by code_simp

theorem enricher_frame_witness:
  "add_context_to_sources demo_env demo_db [src_a] demo_user 2 = [demo_enriched]
   \<and> kept demo_env demo_db 2 src_a demo_enriched
   \<and> add_context_to_sources failing_env demo_db [src_a] demo_user 2 = [src_a]
   \<and> kept failing_env demo_db 2 src_a src_a"
  using enricher_frame [of demo_env demo_db 2 "[src_a]" demo_user]
    enricher_frame [of failing_env demo_db 2 "[src_a]" demo_user]
    demo_enrichment failing_enrichment
  by simp

section \<open>Access to the videos of the final sources\<close>

lemma built_from_accessible: "built_from e db u src \<Longrightarrow> accessible e db u src"
  by (auto simp: built_from_def accessible_def list_ex_iff make_source_def)

lemma set_first_occurrences: "set (first_occurrences key xs) \<subseteq> set xs"
  by (induction key xs rule: first_occurrences.induct) auto

lemma set_merge_sources: "set (merge_sources a h) \<subseteq> set a \<union> set h"
  using set_first_occurrences[of code_key a]
    set_first_occurrences[of code_key "filter (\<lambda>x. code_key x \<notin> code_key ` set a) h"]
  by (auto simp: merge_sources_eq)

lemma set_validate_sources:
  "set (validate_sources e db u a q srcs)
     \<subseteq> set srcs \<union> set (search_sources_from_answer e db a q u 5)"
  by (auto simp: validate_sources_def Let_def)

lemma set_combine_sources:
  "set (combine_sources e db u a q answer_based parsed)
     \<subseteq> set answer_based \<union> set parsed \<union> set (search_videos_by_query e db q u 5)
        \<union> set (search_sources_from_answer e db a q u 5)"
  using set_merge_sources[of answer_based parsed] set_validate_sources[of e db u a q parsed]
  by (auto simp: combine_sources_def)

lemma set_filter_relevant_sources: "set (filter_relevant_sources srcs a q) \<subseteq> set srcs"
  by (auto simp: filter_relevant_sources_def Let_def)

lemma enricher_accessible:
  assumes "list_all (accessible e db u) srcs"
  shows "list_all (accessible e db u) (add_context_to_sources e db srcs u' n)"
proof -
  have "accessible e db u s \<Longrightarrow> kept e db n s s' \<Longrightarrow> accessible e db u s'" for s s'
    by (simp add: accessible_def kept_def)
  then show ?thesis
    using assms enricher_frame[of e db n srcs u']
    by (auto simp: list_all2_conv_all_nth list_all_length)
qed

lemma pipeline_sources_accessible:
  assumes "chat_pipeline e db u org q h = Inr (a, srcs)"
  shows "list_all (accessible e db u) srcs"
proof -
  from assms obtain ctx ans where
    srcs: "srcs =
      (let relevant = filter_relevant_sources
             (combine_sources e db u ans q (search_sources_from_answer e db ans q u 5)
                (parse_sources_from_lightrag e db ctx q u)) ans q
       in if relevant \<noteq> [] then add_context_to_sources e db relevant u 2 else relevant)"
    by (auto simp: chat_pipeline_def Let_def split: sum.splits)
  define combined where "combined = combine_sources e db u ans q
      (search_sources_from_answer e db ans q u 5) (parse_sources_from_lightrag e db ctx q u)"
  define relevant where "relevant = filter_relevant_sources combined ans q"
  have "\<forall>s \<in> set combined. built_from e db u s"
    using set_combine_sources[of e db u ans q "search_sources_from_answer e db ans q u 5"
        "parse_sources_from_lightrag e db ctx q u"]
    unfolding combined_def
    by (auto dest: parse_sources_built answer_sources_built fallback_sources_built)
  then have "\<forall>s \<in> set relevant. accessible e db u s"
    using set_filter_relevant_sources[of combined ans q]
    unfolding relevant_def by (auto dest: built_from_accessible)
  then have rel: "list_all (accessible e db u) relevant" by (simp add: list_all_iff)
  have "srcs = (if relevant \<noteq> [] then add_context_to_sources e db relevant u 2 else relevant)"
    using srcs by (simp add: Let_def relevant_def combined_def)
  then show ?thesis using rel enricher_accessible[OF rel] by auto
qed

lemma accessible_frame:
  "videos db' = videos db \<Longrightarrow> video_access_permissions db' = video_access_permissions db
     \<Longrightarrow> accessible e db' u s = accessible e db u s"
  by (simp add: accessible_def can_access_video_def)

lemma get_conversation_id: "get_conversation db cid u = Some conv \<Longrightarrow> c_id conv = cid"
  by (auto simp: get_conversation_def dest: find_SomeD)

lemma send_message_turn:
  assumes acc: "accepted db req u"
  shows "\<exists>db2 org h. videos db2 = videos db
           \<and> video_access_permissions db2 = video_access_permissions db
           \<and> messages db2 = messages db @ [user_row e req]
           \<and> send_message e db req u =
               (case chat_pipeline e db2 u org (message req) h of
                  Inl ex \<Rightarrow> (db2, Inl (HTTPException 500 (''Chat failed: '' @ exn_text ex)))
                | Inr (final_answer, final_sources) \<Rightarrow>
                    (db2\<lparr>messages := messages db2
                        @ [\<lparr>m_conversation_id = turn_conversation_id e req, m_role = ''assistant'',
                            m_content = final_answer, m_sources = Some final_sources\<rparr>]\<rparr>,
                     Inr \<lparr>response_conversation_id = turn_conversation_id e req,
                          response_message =
                            \<lparr>m_conversation_id = turn_conversation_id e req,
                             m_role = ''assistant'', m_content = final_answer,
                             m_sources = Some final_sources\<rparr>,
                          answer = final_answer, sources = final_sources\<rparr>))"
proof (cases "conversation_id req")
  from acc obtain org where org: "u_organization_id u = Some org"
    by (auto simp: accepted_def)
  case None
  define db1 where "db1 = fst (create_conversation e db u
      (if 50 < length (message req) then take 50 (message req) @ ''...'' else message req))"
  define db2 where "db2 = db1\<lparr>messages := messages db1 @ [user_row e req]\<rparr>"
  define h where "h = butlast (get_conversation_history_for_lightrag db2 (new_conversation_id e) u 10)"
  have "videos db2 = videos db" "video_access_permissions db2 = video_access_permissions db"
       "messages db2 = messages db @ [user_row e req]"
    by (simp_all add: db2_def db1_def create_conversation_def Let_def)
  moreover have "send_message e db req u =
               (case chat_pipeline e db2 u org (message req) h of
                  Inl ex \<Rightarrow> (db2, Inl (HTTPException 500 (''Chat failed: '' @ exn_text ex)))
                | Inr (final_answer, final_sources) \<Rightarrow>
                    (db2\<lparr>messages := messages db2
                        @ [\<lparr>m_conversation_id = turn_conversation_id e req, m_role = ''assistant'',
                            m_content = final_answer, m_sources = Some final_sources\<rparr>]\<rparr>,
                     Inr \<lparr>response_conversation_id = turn_conversation_id e req,
                          response_message =
                            \<lparr>m_conversation_id = turn_conversation_id e req,
                             m_role = ''assistant'', m_content = final_answer,
                             m_sources = Some final_sources\<rparr>,
                          answer = final_answer, sources = final_sources\<rparr>))"
    using org None
    by (simp add: send_message_def add_message_def create_conversation_def Let_def
          db2_def db1_def h_def user_row_def turn_conversation_id_def
          split: sum.splits prod.splits)
  ultimately show ?thesis by blast
next
  from acc obtain org where org: "u_organization_id u = Some org"
    by (auto simp: accepted_def)
  case (Some c)
  with acc obtain conv where conv: "get_conversation db c u = Some conv"
    by (auto simp: accepted_def)
  then have cid: "c_id conv = c" by (rule get_conversation_id)
  define db2 where "db2 = db\<lparr>messages := messages db @ [user_row e req]\<rparr>"
  define h where "h = butlast (get_conversation_history_for_lightrag db2 c u 10)"
  have "videos db2 = videos db" "video_access_permissions db2 = video_access_permissions db"
       "messages db2 = messages db @ [user_row e req]"
    by (simp_all add: db2_def)
  moreover have "send_message e db req u =
               (case chat_pipeline e db2 u org (message req) h of
                  Inl ex \<Rightarrow> (db2, Inl (HTTPException 500 (''Chat failed: '' @ exn_text ex)))
                | Inr (final_answer, final_sources) \<Rightarrow>
                    (db2\<lparr>messages := messages db2
                        @ [\<lparr>m_conversation_id = turn_conversation_id e req, m_role = ''assistant'',
                            m_content = final_answer, m_sources = Some final_sources\<rparr>]\<rparr>,
                     Inr \<lparr>response_conversation_id = turn_conversation_id e req,
                          response_message =
                            \<lparr>m_conversation_id = turn_conversation_id e req,
                             m_role = ''assistant'', m_content = final_answer,
                             m_sources = Some final_sources\<rparr>,
                          answer = final_answer, sources = final_sources\<rparr>))"
    using org Some conv cid
    by (simp add: send_message_def add_message_def Let_def
          db2_def h_def user_row_def turn_conversation_id_def
          split: sum.splits prod.splits)
  ultimately show ?thesis by blast
qed

lemma success_accepted:
  "send_message e db req u = (db', Inr resp) \<Longrightarrow> accepted db req u"
  by (auto simp: send_message_def accepted_def split: option.splits)

lemma demo_turn:
  "send_message demo_env demo_db demo_request demo_user = (demo_db_after, Inr demo_response)"
  by code_simp


text \<open>
  Claim C1. Each of the three searches returns only sources of videos for which
  \<open>can_access_video\<close> returned \<open>True\<close>, and so does a turn: every source in the
  response of \<open>send_message\<close>, which is the list stored with the assistant's message
  (the last row written), names a video of the database that the requesting user could
  access when the turn ran. A turn writes conversations and messages only, so the videos
  and permissions are those of the database the turn started from.
\<close>

theorem final_sources_accessible:
  "list_all (accessible e db u) (parse_sources_from_lightrag e db ctx q u)
   \<and> list_all (accessible e db u) (search_sources_from_answer e db a q u cap)
   \<and> list_all (accessible e db u) (search_videos_by_query e db q u cap)
   \<and> (send_message e db req u = (db', Inr resp)
        \<longrightarrow> list_all (accessible e db u) (sources resp)
            \<and> messages db' \<noteq> []
            \<and> last (messages db') = assistant_row e req resp)"
proof (intro conjI impI)
  show "list_all (accessible e db u) (parse_sources_from_lightrag e db ctx q u)"
    by (auto simp: list_all_iff dest: parse_sources_built built_from_accessible)
  show "list_all (accessible e db u) (search_sources_from_answer e db a q u cap)"
    by (auto simp: list_all_iff dest: answer_sources_built built_from_accessible)
  show "list_all (accessible e db u) (search_videos_by_query e db q u cap)"
    by (auto simp: list_all_iff dest: fallback_sources_built built_from_accessible)
next
  assume turn: "send_message e db req u = (db', Inr resp)"
  then have acc: "accepted db req u" by (rule success_accepted)
  from send_message_turn[OF acc, of e] obtain db2 org h where
      v2: "videos db2 = videos db"
    and p2: "video_access_permissions db2 = video_access_permissions db"
    and sm: "send_message e db req u =
               (case chat_pipeline e db2 u org (message req) h of
                  Inl ex \<Rightarrow> (db2, Inl (HTTPException 500 (''Chat failed: '' @ exn_text ex)))
                | Inr (final_answer, final_sources) \<Rightarrow>
                    (db2\<lparr>messages := messages db2
                        @ [\<lparr>m_conversation_id = turn_conversation_id e req, m_role = ''assistant'',
                            m_content = final_answer, m_sources = Some final_sources\<rparr>]\<rparr>,
                     Inr \<lparr>response_conversation_id = turn_conversation_id e req,
                          response_message =
                            \<lparr>m_conversation_id = turn_conversation_id e req,
                             m_role = ''assistant'', m_content = final_answer,
                             m_sources = Some final_sources\<rparr>,
                          answer = final_answer, sources = final_sources\<rparr>))"
    by blast
  from sm turn obtain ans srcs where
      pipe: "chat_pipeline e db2 u org (message req) h = Inr (ans, srcs)"
    and resp: "sources resp = srcs"
    by (auto split: sum.splits)
  from pipeline_sources_accessible[OF pipe] have "list_all (accessible e db2 u) srcs" .
  then have "list_all (accessible e db u) srcs"
    using accessible_frame[OF v2 p2] by (simp add: list_all_iff)
  then show "list_all (accessible e db u) (sources resp)" using resp by simp
  from sm turn pipe have "messages db' = messages db2 @ [assistant_row e req resp]"
    by (auto simp: assistant_row_def)
  then show "messages db' \<noteq> []" "last (messages db') = assistant_row e req resp"
    by simp_all
qed

theorem final_sources_accessible_witness:
  "send_message demo_env demo_db demo_request demo_user = (demo_db_after, Inr demo_response)
   \<and> list_all (accessible demo_env demo_db demo_user) (sources demo_response)
   \<and> sources demo_response = [demo_enriched]
   \<and> last (messages demo_db_after) = assistant_row demo_env demo_request demo_response"
  using final_sources_accessible
      [of demo_env demo_db demo_user demo_context "''Who?''" "''John''" 5 demo_request
          demo_db_after demo_response]
    demo_turn
  by (simp add: demo_response_def)

section \<open>What a turn persists\<close>






end
